theory Spec2Isabelle
  imports Complex_Main
begin

section \<open>The Atari DQN train/eval driver (train\_eval\_atari.py)\<close>

text \<open>
  A shallow embedding of \<^verbatim>\<open>tf_agents/agents/dqn/examples/train_eval_atari.py\<close>:
  the collect step with its life-loss splice, the episode loop, the initial
  collection, the train and eval phases and the iteration loop of
  \<^verbatim>\<open>TrainEval\<close>.

  The environment, the policies, the replay buffer and the metrics are objects
  of other modules. The environment is a parameter (a record of its three
  operations over an arbitrary emulator state); the policies are parameters;
  the replay buffer, the time step constructors, \<^verbatim>\<open>from_transition\<close> and the
  step-counting metric are modelled from the specification, each marked so.

  The source wraps its environment in a batch of one
  (\<^verbatim>\<open>BatchedPyEnvironment([self._env])\<close>), so every time step that comes from
  \<^verbatim>\<open>self._env\<close> carries a batch dimension, while the restart step that the
  life-loss splice builds itself (\<^verbatim>\<open>ts.restart(next_time_step.observation)\<close>,
  with no batch size) does not. The replay buffer reads the batch size off the
  step type of what it is given. A time step and a transition therefore record
  whether their step type has the batch dimension.

  Python mutates \<^verbatim>\<open>self\<close>; here every function takes the state of the
  run (\<open>world\<close>) and returns it updated. An exception is the value \<open>Inl e\<close>,
  returned together with the state reached when it was raised. The loops of the
  source are unbounded, so each is a recursive function on a fuel counter and
  \<open>None\<close> stands for a loop that has not returned within the fuel.

  Rewards, discounts and the step budgets (which the source divides by the
  frame skip under \<^verbatim>\<open>from __future__ import division\<close>) are floats in the
  source and real numbers here: rounding and NaN are not modelled.

  Left out, as they change nothing of the state modelled: the timers (the source
  has no \<^verbatim>\<open>try\<close> or \<^verbatim>\<open>except\<close>, and its \<^verbatim>\<open>with\<close> blocks are timers and
  summary writers, taken to let exceptions through), logging, summaries,
  checkpoints and the resets of the phase metrics.
\<close>

subsection \<open>Time steps, policy steps and trajectories\<close>

datatype step_type = FIRST | MID | LAST

type_synonym observation = nat
type_synonym action = nat

record time_step =
  step_type :: step_type
  reward :: real
  discount :: real
  observation :: observation
  batched :: bool

record policy_step =
  action :: action
  info :: nat

record trajectory =
  traj_step_type :: step_type
  traj_observation :: observation
  traj_action :: action
  traj_policy_info :: nat
  traj_next_step_type :: step_type
  traj_reward :: real
  traj_discount :: real
  traj_batched :: bool

definition is_last :: "time_step \<Rightarrow> bool" where
  "is_last ts \<longleftrightarrow> step_type ts = LAST"

text \<open>
  Modelled from the spec: \<^verbatim>\<open>ts.restart\<close> of \<^verbatim>\<open>tf_agents.environments.time_step\<close>
  is not among the sources. "FIRST steps always have reward=0, discount=1 by
  convention." The source calls it with an observation only, and without a batch
  size the step type is a scalar: the step is not batched.
\<close>

definition restart :: "observation \<Rightarrow> time_step" where
  "restart obs =
     \<lparr>step_type = FIRST, reward = 0, discount = 1, observation = obs, batched = False\<rparr>"

text \<open>
  Modelled from the spec: \<^verbatim>\<open>ts.transition\<close> of \<^verbatim>\<open>tf_agents.environments.time_step\<close>
  is not among the sources. It builds the "synthetic MID step" of the splice from
  an observation and a reward; the source passes no discount, and the step is
  "non-terminal for value bootstrapping", so its discount is 1. The step type
  takes the shape of the reward given: the third argument says whether that
  reward has the batch dimension.
\<close>

definition transition :: "observation \<Rightarrow> real \<Rightarrow> bool \<Rightarrow> time_step" where
  "transition obs r b =
     \<lparr>step_type = MID, reward = r, discount = 1, observation = obs, batched = b\<rparr>"

text \<open>
  \<^verbatim>\<open>BatchedPyEnvironment\<close> around the one environment: what \<^verbatim>\<open>self._env.reset()\<close>
  and \<^verbatim>\<open>self._env.step(action)\<close> return has the batch dimension.
\<close>

definition batch :: "time_step \<Rightarrow> time_step" where
  "batch ts = ts\<lparr>batched := True\<rparr>"

text \<open>
  Modelled from the spec: \<^verbatim>\<open>trajectory.from_transition\<close> of
  \<^verbatim>\<open>tf_agents.environments.trajectory\<close> is not among the sources. A transition is
  "one edge between two timesteps with the action taken", "constructed per agent
  step from (prev timestep, action, next timestep)": the step kind and the
  observation are those of the previous time step, the next step kind, the reward
  and the discount those of the next time step (the discount that the life-loss
  override replaces is the one of the \<open>LAST\<close> next time step). The reward of the
  previous time step is not part of the transition. The step type, and with it
  its shape, is the previous time step's.
\<close>

definition from_transition :: "time_step \<Rightarrow> policy_step \<Rightarrow> time_step \<Rightarrow> trajectory" where
  "from_transition time_step action_step next_time_step =
     \<lparr>traj_step_type = step_type time_step,
      traj_observation = observation time_step,
      traj_action = action action_step,
      traj_policy_info = info action_step,
      traj_next_step_type = step_type next_time_step,
      traj_reward = reward next_time_step,
      traj_discount = discount next_time_step,
      traj_batched = batched time_step\<rparr>"

subsection \<open>The experience store\<close>

text \<open>
  Modelled from the spec: \<^verbatim>\<open>PyHashedReplayBuffer\<close> of
  \<^verbatim>\<open>tf_agents.replay_buffers\<close> is not among the sources. "add(transition) inserts
  at the next ring slot, overwriting the oldest entry once at capacity, and
  increments a size counter capped at capacity." The ring is kept as the list of
  everything ever written, oldest first, with the capacity: its size is the
  number of writes capped at the capacity and its contents are the most recent
  ones. \<^verbatim>\<open>add_batch\<close> takes the batch size from the outer dimension of the
  item's first field, the step type, and raises \<^verbatim>\<open>IndexError\<close> when the step
  type has none; nothing is written then.
\<close>

datatype error = EnvironmentError string | IndexError

record replay_buffer =
  capacity :: nat
  written :: "trajectory list"

definition rb_size :: "replay_buffer \<Rightarrow> nat" where
  "rb_size rb = min (length (written rb)) (capacity rb)"

definition rb_contents :: "replay_buffer \<Rightarrow> trajectory list" where
  "rb_contents rb = drop (length (written rb) - capacity rb) (written rb)"

definition add_batch :: "trajectory \<Rightarrow> replay_buffer \<Rightarrow> error + replay_buffer" where
  "add_batch traj rb =
     (if traj_batched traj then Inr (rb\<lparr>written := written rb @ [traj]\<rparr>)
      else Inl IndexError)"

subsection \<open>The environment and the state of a run\<close>

text \<open>
  The one Atari environment of the batch: \<^verbatim>\<open>reset()\<close>, \<^verbatim>\<open>step(action)\<close> and the
  out-of-band \<^verbatim>\<open>game_over\<close> flag of the emulator, over an emulator state \<open>'e\<close>.
  A call that raises returns \<open>Inl\<close> with the exception's message; whatever the
  environment raises is an \<open>EnvironmentError\<close> to the driver.
\<close>

record 'e environment =
  env_reset :: "'e \<Rightarrow> string + time_step \<times> 'e"
  env_step :: "'e \<Rightarrow> action \<Rightarrow> string + time_step \<times> 'e"
  env_game_over :: "'e \<Rightarrow> bool"

text \<open>
  A policy answers an action query for a time step. The learned policy reads
  weights that training changes and both policies draw random numbers, so the
  answer may differ from query to query: a policy is given the number of
  queries made before.
\<close>

type_synonym policy = "nat \<Rightarrow> time_step \<Rightarrow> policy_step"

datatype metric =
  NumberOfEpisodes | EnvironmentSteps | AverageReturnMetric | AverageEpisodeLengthMetric
  | PhaseAverageReturn | PhaseAverageEpisodeLength

text \<open>
  The state of a run. \<open>observed\<close> lists the transitions delivered to the metric
  observers, oldest first; \<open>env_steps_metric\<close> is the result of the
  \<^verbatim>\<open>EnvironmentSteps\<close> metric, \<open>global_step\<close> the number of learning updates,
  \<open>iteration_metric\<close> the iteration counter. The next five fields count calls
  (queries to a policy, calls of \<^verbatim>\<open>env.step\<close> and \<^verbatim>\<open>env.reset\<close> including
  failed ones, calls of \<^verbatim>\<open>_collect_step\<close>, life-loss boundaries met), and
  \<open>env_failures\<close> lists the exceptions the environment raised, each with the
  number of environment calls made when it was raised. Of these six only
  \<open>policy_calls\<close> is ever read, to index the policy.
\<close>

record 'e world =
  env :: 'e
  replay_buffer :: replay_buffer
  observed :: "trajectory list"
  env_steps_metric :: nat
  global_step :: nat
  iteration_metric :: nat
  policy_calls :: nat
  env_step_calls :: nat
  env_reset_calls :: nat
  collect_step_calls :: nat
  life_losses :: nat
  env_failures :: "(nat \<times> error) list"

definition call_reset :: "'e environment \<Rightarrow> 'e world \<Rightarrow> (error + time_step) \<times> 'e world" where
  "call_reset ops st =
     (case env_reset ops (env st) of
        Inl m \<Rightarrow>
          (Inl (EnvironmentError m),
           st\<lparr>env_reset_calls := env_reset_calls st + 1,
              env_failures :=
                env_failures st @
                  [(env_reset_calls st + env_step_calls st + 1, EnvironmentError m)]\<rparr>)
      | Inr (ts, e') \<Rightarrow>
          (Inr (batch ts), st\<lparr>env := e', env_reset_calls := env_reset_calls st + 1\<rparr>))"

definition call_step :: "'e environment \<Rightarrow> action \<Rightarrow> 'e world \<Rightarrow> (error + time_step) \<times> 'e world" where
  "call_step ops a st =
     (case env_step ops (env st) a of
        Inl m \<Rightarrow>
          (Inl (EnvironmentError m),
           st\<lparr>env_step_calls := env_step_calls st + 1,
              env_failures :=
                env_failures st @
                  [(env_reset_calls st + env_step_calls st + 1, EnvironmentError m)]\<rparr>)
      | Inr (ts, e') \<Rightarrow>
          (Inr (batch ts), st\<lparr>env := e', env_step_calls := env_step_calls st + 1\<rparr>))"

definition policy_action :: "policy \<Rightarrow> time_step \<Rightarrow> 'e world \<Rightarrow> policy_step \<times> 'e world" where
  "policy_action pol ts st = (pol (policy_calls st) ts, st\<lparr>policy_calls := policy_calls st + 1\<rparr>)"

text \<open>\<^verbatim>\<open>TrainEval.game_over\<close>: the flag of the one environment of the batch.\<close>

definition game_over :: "'e environment \<Rightarrow> 'e world \<Rightarrow> bool" where
  "game_over ops st = env_game_over ops (env st)"

subsection \<open>Configuration\<close>

definition ATARI_FRAME_SKIP :: nat where
  "ATARI_FRAME_SKIP = 4"

text \<open>The constructor's parameters that the driver reads, in ALE frames as configured.\<close>

record config =
  num_iterations :: nat
  initial_collect_steps :: nat
  epsilon_greedy :: real
  epsilon_decay_period :: nat
  train_steps_per_iteration :: nat
  update_period :: nat
  do_eval :: bool
  eval_steps_per_iteration :: nat

text \<open>
  The attributes \<^verbatim>\<open>self._update_period\<close>, \<^verbatim>\<open>self._train_steps_per_iteration\<close>,
  \<^verbatim>\<open>self._eval_steps_per_iteration\<close> and \<^verbatim>\<open>self._initial_collect_steps\<close>: the
  configured frames divided by the frame skip, a true division.
\<close>

definition self_update_period :: "config \<Rightarrow> real" where
  "self_update_period cfg = real (update_period cfg) / real ATARI_FRAME_SKIP"

definition self_train_steps_per_iteration :: "config \<Rightarrow> real" where
  "self_train_steps_per_iteration cfg = real (train_steps_per_iteration cfg) / real ATARI_FRAME_SKIP"

definition self_eval_steps_per_iteration :: "config \<Rightarrow> real" where
  "self_eval_steps_per_iteration cfg = real (eval_steps_per_iteration cfg) / real ATARI_FRAME_SKIP"

definition self_initial_collect_steps :: "config \<Rightarrow> real" where
  "self_initial_collect_steps cfg = real (initial_collect_steps cfg) / real ATARI_FRAME_SKIP"

subsection \<open>Observing and storing\<close>

text \<open>
  Modelled from the spec: the metric classes of \<^verbatim>\<open>tf_agents.metrics.py_metrics\<close>
  are not among the sources. A metric's "result must equal the defined statistic
  (mean return, mean length, count) over exactly the transitions observed since
  the last reset": the step counter \<^verbatim>\<open>EnvironmentSteps\<close> counts one for every
  transition it is called with, and is never reset by the driver. The other
  metrics are functions of the transitions observed, which \<open>observed\<close> records.

  \<^verbatim>\<open>_observe\<close> calls every observer of the list with the transition.
\<close>

definition observe :: "metric list \<Rightarrow> trajectory \<Rightarrow> 'e world \<Rightarrow> 'e world" where
  "observe metric_observers traj st =
     st\<lparr>observed := observed st @ [traj],
        env_steps_metric := env_steps_metric st + count_list metric_observers EnvironmentSteps\<rparr>"

text \<open>\<^verbatim>\<open>np.clip(traj.reward, -1, 1)\<close>.\<close>

definition clip :: "real \<Rightarrow> real \<Rightarrow> real \<Rightarrow> real" where
  "clip x lo hi = min (max x lo) hi"

definition clip_reward :: "trajectory \<Rightarrow> trajectory" where
  "clip_reward traj = traj\<lparr>traj_reward := clip (traj_reward traj) (-1) 1\<rparr>"

text \<open>
  \<^verbatim>\<open>_store_to_rb\<close>: "Clip the reward to (-1, 1) to normalize rewards in
  training", then add to the replay buffer, which may raise.
\<close>

definition store_to_rb :: "trajectory \<Rightarrow> 'e world \<Rightarrow> (error + unit) \<times> 'e world" where
  "store_to_rb traj st =
     (case add_batch (clip_reward traj) (replay_buffer st) of
        Inl e \<Rightarrow> (Inl e, st)
      | Inr rb \<Rightarrow> (Inr (), st\<lparr>replay_buffer := rb\<rparr>))"

subsection \<open>The collect step\<close>

text \<open>
  \<^verbatim>\<open>_collect_step\<close>: "Run a single step (or 2 steps on life loss) in the
  environment." The condition \<^verbatim>\<open>next_time_step.is_last() and not self.game_over()\<close>
  is evaluated twice in the source, before and after the write to the store; the
  write does not touch the environment, and the model evaluates it in both places
  as the source does. The names follow the source where it rebinds
  \<^verbatim>\<open>time_step\<close>, \<^verbatim>\<open>action_step\<close> and \<^verbatim>\<open>next_time_step\<close>: \<open>next_mid\<close> is the
  \<open>LAST\<close> step re-expressed by \<^verbatim>\<open>ts.transition\<close>, \<open>first_step\<close> the result of
  \<^verbatim>\<open>ts.restart\<close>, \<open>mid_step\<close> the time step built from it and the saved reward.
  The counters \<open>collect_step_calls\<close> and \<open>life_losses\<close> are advanced on entry and
  on entering the splice. Each of the two \<^verbatim>\<open>_store_to_rb\<close> calls may raise, and
  what it raises ends the collect step.
\<close>

definition collect_step ::
  "'e environment \<Rightarrow> policy \<Rightarrow> metric list \<Rightarrow> bool \<Rightarrow> time_step \<Rightarrow> 'e world
     \<Rightarrow> (error + time_step) \<times> 'e world" where
  "collect_step ops pol metric_observers train time_step st0 =
     (let (action_step, st1) =
            policy_action pol time_step (st0\<lparr>collect_step_calls := collect_step_calls st0 + 1\<rparr>)
      in case call_step ops (action action_step) st1 of
           (Inl e, st2) \<Rightarrow> (Inl e, st2)
         | (Inr next_time_step, st2) \<Rightarrow>
             (let traj0 = from_transition time_step action_step next_time_step;
                  traj = (if is_last next_time_step \<and> \<not> game_over ops st2
                          then traj0\<lparr>traj_discount := 1\<rparr> else traj0)
              in case (if train then store_to_rb traj st2 else (Inr (), st2)) of
                   (Inl e, st3) \<Rightarrow> (Inl e, st3)
                 | (Inr u, st3) \<Rightarrow>
                     if is_last next_time_step \<and> \<not> game_over ops st3 then
                       (let next_mid = transition (observation next_time_step)
                                         (reward next_time_step) (batched next_time_step);
                            st4 = observe metric_observers
                                    (from_transition time_step action_step next_mid)
                                    (st3\<lparr>life_losses := life_losses st3 + 1\<rparr>);
                            reward0 = reward time_step;
                            first_step = restart (observation next_mid);
                            (action_step', st5) = policy_action pol first_step st4
                        in case call_step ops (action action_step') st5 of
                             (Inl e, st6) \<Rightarrow> (Inl e, st6)
                           | (Inr next_time_step', st6) \<Rightarrow>
                               (case (if train
                                      then store_to_rb
                                             (from_transition first_step action_step'
                                                next_time_step') st6
                                      else (Inr (), st6)) of
                                  (Inl e, st7) \<Rightarrow> (Inl e, st7)
                                | (Inr u', st7) \<Rightarrow>
                                    (let mid_step = transition (observation first_step) reward0
                                                      (batched time_step);
                                         traj' = from_transition mid_step action_step'
                                                   next_time_step'
                                     in (Inr next_time_step',
                                         observe metric_observers traj' st7))))
                     else (Inr next_time_step, observe metric_observers traj st3)))"

subsection \<open>The episode loop\<close>

text \<open>
  The test \<^verbatim>\<open>self._env_steps_metric.result() % self._update_period == 0\<close>. The
  period is a float, so the remainder is that of the floored division of floats;
  both operands are non-negative. A period of zero (an update period of 0 frames)
  is taken not to trigger an update: the metric's result being a NumPy integer,
  the remainder is then NaN, which is not equal to zero.
\<close>

definition py_mod :: "real \<Rightarrow> real \<Rightarrow> real" where
  "py_mod x y = x - y * of_int \<lfloor>x / y\<rfloor>"

definition update_due :: "nat \<Rightarrow> real \<Rightarrow> bool" where
  "update_due steps period \<longleftrightarrow> period \<noteq> 0 \<and> py_mod (real steps) period = 0"

text \<open>
  \<^verbatim>\<open>self._train_step_call()\<close>: one learning update of the external learner, which
  increments the global step. Logging and summaries do not change the state
  modelled here.
\<close>

definition train_step_call :: "'e world \<Rightarrow> 'e world" where
  "train_step_call st = st\<lparr>global_step := global_step st + 1\<rparr>"

text \<open>
  The \<^verbatim>\<open>while True\<close> loop of \<^verbatim>\<open>_run_episode\<close>, from the current time step and
  the steps counted so far.
\<close>

fun run_episode_loop ::
  "nat \<Rightarrow> 'e environment \<Rightarrow> policy \<Rightarrow> metric list \<Rightarrow> bool \<Rightarrow> real \<Rightarrow> time_step \<Rightarrow> nat
     \<Rightarrow> 'e world \<Rightarrow> ((error + nat) \<times> 'e world) option" where
  "run_episode_loop 0 ops pol metric_observers train period time_step env_steps st = None"
| "run_episode_loop (Suc fuel) ops pol metric_observers train period time_step env_steps st =
     (case collect_step ops pol metric_observers train time_step st of
        (Inl e, st1) \<Rightarrow> Some (Inl e, st1)
      | (Inr time_step', st1) \<Rightarrow>
          if game_over ops st1 then Some (Inr (env_steps + 1), st1)
          else if train \<and> update_due (env_steps_metric st1) period
          then run_episode_loop fuel ops pol metric_observers train period time_step'
                 (env_steps + 1) (train_step_call st1)
          else run_episode_loop fuel ops pol metric_observers train period time_step'
                 (env_steps + 1) st1)"

definition run_episode ::
  "nat \<Rightarrow> 'e environment \<Rightarrow> policy \<Rightarrow> metric list \<Rightarrow> bool \<Rightarrow> real
     \<Rightarrow> 'e world \<Rightarrow> ((error + nat) \<times> 'e world) option" where
  "run_episode fuel ops pol metric_observers train period st =
     (case call_reset ops st of
        (Inl e, st1) \<Rightarrow> Some (Inl e, st1)
      | (Inr time_step, st1) \<Rightarrow>
          run_episode_loop fuel ops pol metric_observers train period time_step 0 st1)"

subsection \<open>Initial collection\<close>

text \<open>
  \<^verbatim>\<open>_initial_collect\<close>: its own loop around the environment and the replay
  buffer, with the random policy. It calls \<^verbatim>\<open>add_batch\<close> directly.
\<close>

fun initial_collect_loop ::
  "nat \<Rightarrow> 'e environment \<Rightarrow> policy \<Rightarrow> real \<Rightarrow> time_step \<Rightarrow> 'e world
     \<Rightarrow> ((error + unit) \<times> 'e world) option" where
  "initial_collect_loop 0 ops random_policy threshold time_step st = None"
| "initial_collect_loop (Suc fuel) ops random_policy threshold time_step st =
     (if real (rb_size (replay_buffer st)) < threshold then
        (case (if game_over ops st then call_reset ops st else (Inr time_step, st)) of
           (Inl e, st1) \<Rightarrow> Some (Inl e, st1)
         | (Inr time_step1, st1) \<Rightarrow>
             (let (action_step, st2) = policy_action random_policy time_step1 st1
              in case call_step ops (action action_step) st2 of
                   (Inl e, st3) \<Rightarrow> Some (Inl e, st3)
                 | (Inr next_time_step, st3) \<Rightarrow>
                     (case add_batch (from_transition time_step1 action_step next_time_step)
                             (replay_buffer st3) of
                        Inl e \<Rightarrow> Some (Inl e, st3)
                      | Inr rb \<Rightarrow>
                          initial_collect_loop fuel ops random_policy threshold next_time_step
                            (st3\<lparr>replay_buffer := rb\<rparr>))))
      else Some (Inr (), st))"

definition initial_collect ::
  "nat \<Rightarrow> config \<Rightarrow> 'e environment \<Rightarrow> policy \<Rightarrow> 'e world \<Rightarrow> ((error + unit) \<times> 'e world) option" where
  "initial_collect fuel cfg ops random_policy st =
     (case call_reset ops st of
        (Inl e, st1) \<Rightarrow> Some (Inl e, st1)
      | (Inr time_step, st1) \<Rightarrow>
          initial_collect_loop fuel ops random_policy (self_initial_collect_steps cfg) time_step st1)"

subsection \<open>Phases and iterations\<close>

definition train_metrics :: "metric list" where
  "train_metrics = [NumberOfEpisodes, EnvironmentSteps, AverageReturnMetric, AverageEpisodeLengthMetric]"

definition train_phase_metrics :: "metric list" where
  "train_phase_metrics = [PhaseAverageReturn, PhaseAverageEpisodeLength]"

definition eval_metrics :: "metric list" where
  "eval_metrics = [PhaseAverageReturn, PhaseAverageEpisodeLength]"

text \<open>
  The two \<^verbatim>\<open>while env_steps < ...\<close> loops of \<^verbatim>\<open>run\<close>. Both run episodes with
  \<^verbatim>\<open>self._collect_policy\<close>, which \<^verbatim>\<open>_run_episode\<close> passes to every collect step.
\<close>

fun train_phase_loop ::
  "nat \<Rightarrow> config \<Rightarrow> 'e environment \<Rightarrow> policy \<Rightarrow> nat \<Rightarrow> 'e world
     \<Rightarrow> ((error + nat) \<times> 'e world) option" where
  "train_phase_loop 0 cfg ops pol env_steps st = None"
| "train_phase_loop (Suc fuel) cfg ops pol env_steps st =
     (if real env_steps < self_train_steps_per_iteration cfg then
        (case run_episode fuel ops pol (train_metrics @ train_phase_metrics) True
                (self_update_period cfg) st of
           None \<Rightarrow> None
         | Some (Inl e, st1) \<Rightarrow> Some (Inl e, st1)
         | Some (Inr n, st1) \<Rightarrow> train_phase_loop fuel cfg ops pol (env_steps + n) st1)
      else Some (Inr env_steps, st))"

fun eval_phase_loop ::
  "nat \<Rightarrow> config \<Rightarrow> 'e environment \<Rightarrow> policy \<Rightarrow> nat \<Rightarrow> 'e world
     \<Rightarrow> ((error + nat) \<times> 'e world) option" where
  "eval_phase_loop 0 cfg ops pol env_steps st = None"
| "eval_phase_loop (Suc fuel) cfg ops pol env_steps st =
     (if real env_steps < self_eval_steps_per_iteration cfg then
        (case run_episode fuel ops pol eval_metrics False (self_update_period cfg) st of
           None \<Rightarrow> None
         | Some (Inl e, st1) \<Rightarrow> Some (Inl e, st1)
         | Some (Inr n, st1) \<Rightarrow> eval_phase_loop fuel cfg ops pol (env_steps + n) st1)
      else Some (Inr env_steps, st))"

text \<open>
  The iteration loop of \<^verbatim>\<open>run\<close>: a train phase, an eval phase when configured,
  then the iteration counter. Checkpoints and summaries are left out.
\<close>

fun run_loop ::
  "nat \<Rightarrow> config \<Rightarrow> 'e environment \<Rightarrow> policy \<Rightarrow> 'e world \<Rightarrow> ((error + unit) \<times> 'e world) option" where
  "run_loop 0 cfg ops pol st = None"
| "run_loop (Suc fuel) cfg ops pol st =
     (if iteration_metric st < num_iterations cfg then
        (case train_phase_loop fuel cfg ops pol 0 st of
           None \<Rightarrow> None
         | Some (Inl e, st1) \<Rightarrow> Some (Inl e, st1)
         | Some (Inr n, st1) \<Rightarrow>
             (case (if do_eval cfg then eval_phase_loop fuel cfg ops pol 0 st1
                    else Some (Inr 0, st1)) of
                None \<Rightarrow> None
              | Some (Inl e, st2) \<Rightarrow> Some (Inl e, st2)
              | Some (Inr m, st2) \<Rightarrow>
                  run_loop fuel cfg ops pol (st2\<lparr>iteration_metric := iteration_metric st2 + 1\<rparr>)))
      else Some (Inr (), st))"

definition run ::
  "nat \<Rightarrow> config \<Rightarrow> 'e environment \<Rightarrow> policy \<Rightarrow> policy \<Rightarrow> 'e world
     \<Rightarrow> ((error + unit) \<times> 'e world) option" where
  "run fuel cfg ops random_policy collect_policy st =
     (case initial_collect fuel cfg ops random_policy st of
        None \<Rightarrow> None
      | Some (Inl e, st1) \<Rightarrow> Some (Inl e, st1)
      | Some (Inr u, st1) \<Rightarrow> run_loop fuel cfg ops collect_policy st1)"

subsection \<open>The exploration schedule\<close>

text \<open>
  Modelled from the spec: \<^verbatim>\<open>tf.train.polynomial_decay\<close> is TensorFlow's and not
  among the sources. "Linear decay from 1.0 to a floor value": with the default
  power 1 and no cycling, the step is capped at the decay steps and the value
  goes linearly from the start to the end value.
\<close>

definition polynomial_decay :: "real \<Rightarrow> real \<Rightarrow> real \<Rightarrow> real \<Rightarrow> real" where
  "polynomial_decay learning_rate step decay_steps end_learning_rate =
     (learning_rate - end_learning_rate) * (1 - min step decay_steps / decay_steps)
       + end_learning_rate"

text \<open>
  The decay steps as the constructor computes them:
  \<^verbatim>\<open>epsilon_decay_period / ATARI_FRAME_SKIP / self._update_period\<close>.
\<close>

definition epsilon_decay_steps :: "config \<Rightarrow> real" where
  "epsilon_decay_steps cfg =
     real (epsilon_decay_period cfg) / real ATARI_FRAME_SKIP / self_update_period cfg"

definition epsilon :: "config \<Rightarrow> nat \<Rightarrow> real" where
  "epsilon cfg step =
     polynomial_decay 1 (real step) (epsilon_decay_steps cfg) (epsilon_greedy cfg)"

subsection \<open>A scripted environment\<close>

text \<open>
  A deterministic stub for concrete runs: \<^verbatim>\<open>step\<close> plays the next entry of a
  script (the time step to return and the emulator's game-over flag after it),
  whatever the action; \<^verbatim>\<open>reset\<close> returns a \<open>FIRST\<close> step and clears the flag.
  Both fail once the script is exhausted. The stub is the one environment inside
  the batch: its time steps have no batch dimension until \<open>batch\<close> gives them one.
\<close>

record stub_env =
  script :: "(time_step \<times> bool) list"
  over :: bool

definition stub_reset :: "stub_env \<Rightarrow> string + time_step \<times> stub_env" where
  "stub_reset s =
     (case script s of
        [] \<Rightarrow> Inl ''script exhausted''
      | x # rest \<Rightarrow> Inr (restart 0, s\<lparr>over := False\<rparr>))"

definition stub_step :: "stub_env \<Rightarrow> action \<Rightarrow> string + time_step \<times> stub_env" where
  "stub_step s a =
     (case script s of
        [] \<Rightarrow> Inl ''script exhausted''
      | (ts, go) # rest \<Rightarrow> Inr (ts, \<lparr>script = rest, over = go\<rparr>))"

definition stub :: "stub_env environment" where
  "stub = \<lparr>env_reset = stub_reset, env_step = stub_step, env_game_over = over\<rparr>"

definition mid :: "real \<Rightarrow> time_step \<times> bool" where
  "mid r =
     (\<lparr>step_type = MID, reward = r, discount = 1, observation = 1, batched = False\<rparr>, False)"

definition life_lost :: "real \<Rightarrow> time_step \<times> bool" where
  "life_lost r =
     (\<lparr>step_type = LAST, reward = r, discount = 0, observation = 2, batched = False\<rparr>, False)"

definition game_ends :: "real \<Rightarrow> time_step \<times> bool" where
  "game_ends r =
     (\<lparr>step_type = LAST, reward = r, discount = 0, observation = 3, batched = False\<rparr>, True)"

text \<open>The state before a run: an empty store of the given capacity, all counters zero.\<close>

definition initial_world :: "'e \<Rightarrow> nat \<Rightarrow> 'e world" where
  "initial_world e cap =
     \<lparr>env = e,
      replay_buffer = \<lparr>capacity = cap, written = []\<rparr>,
      observed = [], env_steps_metric = 0, global_step = 0, iteration_metric = 0,
      policy_calls = 0, env_step_calls = 0, env_reset_calls = 0,
      collect_step_calls = 0, life_losses = 0, env_failures = []\<rparr>"

definition fresh :: "nat \<Rightarrow> (time_step \<times> bool) list \<Rightarrow> stub_env world" where
  "fresh cap sc = initial_world \<lparr>script = sc, over = False\<rparr> cap"

definition noop_policy :: policy where
  "noop_policy = (\<lambda>k ts. \<lparr>action = 0, info = 0\<rparr>)"

text \<open>
  The scenarios of the specification. A deterministic environment that never
  fails and produces episodes of a fixed length, the game being over at the end
  of each: its state is the number of steps since the last reset. And a
  configuration with an initial-collect threshold of 50 agent steps, a train
  budget of 20 agent steps and an update period of 5 agent steps (200, 80 and 20
  ALE frames).
\<close>

definition fixed_length_env :: "nat \<Rightarrow> nat environment" where
  "fixed_length_env len =
     \<lparr>env_reset = (\<lambda>n. Inr (restart 0, 0)),
      env_step = (\<lambda>n a. Inr (if Suc n = len then fst (game_ends 0) else fst (mid 0), Suc n)),
      env_game_over = (\<lambda>n. n = len)\<rparr>"

definition scenario_config :: config where
  "scenario_config =
     \<lparr>num_iterations = 1, initial_collect_steps = 200, epsilon_greedy = 1 / 100,
      epsilon_decay_period = 1000000, train_steps_per_iteration = 80, update_period = 20,
      do_eval = True, eval_steps_per_iteration = 80\<rparr>"

subsection \<open>Counting learning updates\<close>

text \<open>
  The number of steps \<open>j\<close> with \<open>1 \<le> j < n\<close> at which the step count \<open>c + j\<close> is
  a multiple of the update period: the steps of an episode of \<open>n\<close> steps, begun at
  step count \<open>c\<close>, other than its last.
\<close>

definition updates_between :: "nat \<Rightarrow> nat \<Rightarrow> real \<Rightarrow> nat" where
  "updates_between c n period = length (filter (\<lambda>j. update_due (c + j) period) [1..<n])"

subsection \<open>Failures of the environment\<close>

text \<open>
  What the environment has raised, by the end of a call that returned \<open>r\<close> in
  state \<open>st\<close>, when its failures are fatal: nothing if \<open>r\<close> is a value or an error
  of the replay buffer, and if \<open>r\<close> is an error of the environment just that
  error, raised by the last call made to the environment.
\<close>

definition raised :: "error + 'a \<Rightarrow> 'e world \<Rightarrow> (nat \<times> error) list" where
  "raised r st =
     (case r of
        Inl (EnvironmentError m) \<Rightarrow> [(env_reset_calls st + env_step_calls st, EnvironmentError m)]
      | Inl IndexError \<Rightarrow> []
      | Inr v \<Rightarrow> [])"

text \<open>
  A configuration for short runs: a threshold of 1 agent step for the initial
  collection, budgets of 2 agent steps and an update period of 1 agent step.
\<close>

definition short_config :: config where
  "short_config =
     \<lparr>num_iterations = 1, initial_collect_steps = 4, epsilon_greedy = 1 / 100,
      epsilon_decay_period = 400, train_steps_per_iteration = 8, update_period = 4,
      do_eval = True, eval_steps_per_iteration = 8\<rparr>"

section \<open>Facts about the collect step\<close>

lemmas collect_step_defs = collect_step_def policy_action_def call_step_def game_over_def
  store_to_rb_def add_batch_def observe_def Let_def

lemmas stub_defs = stub_def stub_step_def stub_reset_def fresh_def initial_world_def mid_def
  life_lost_def game_ends_def noop_policy_def

lemma batch_simps [simp]:
  "step_type (batch ts) = step_type ts"
  "reward (batch ts) = reward ts"
  "discount (batch ts) = discount ts"
  "observation (batch ts) = observation ts"
  "batched (batch ts)"
  "is_last (batch ts) = is_last ts"
  by (simp_all add: batch_def is_last_def)

lemma traj_batched_simps [simp]:
  "traj_batched (clip_reward traj) = traj_batched traj"
  "traj_batched (from_transition ts a nts) = batched ts"
  by (simp_all add: clip_reward_def from_transition_def)

text \<open>Unfolding the loops on numeral fuel, for concrete runs.\<close>

lemmas run_episode_loop_numeral =
  run_episode_loop.simps(2) [where fuel = "pred_numeral k", folded numeral_eq_Suc] for k

lemmas initial_collect_loop_numeral =
  initial_collect_loop.simps(2) [where fuel = "pred_numeral k", folded numeral_eq_Suc] for k

lemmas train_phase_loop_numeral =
  train_phase_loop.simps(2) [where fuel = "pred_numeral k", folded numeral_eq_Suc] for k

lemmas eval_phase_loop_numeral =
  eval_phase_loop.simps(2) [where fuel = "pred_numeral k", folded numeral_eq_Suc] for k

lemmas run_loop_numeral =
  run_loop.simps(2) [where fuel = "pred_numeral k", folded numeral_eq_Suc] for k

lemmas run_eval = run_def run_loop_numeral train_phase_loop_numeral eval_phase_loop_numeral
  run_episode_loop_numeral run_episode_def initial_collect_def initial_collect_loop_numeral
  call_reset_def collect_step_defs rb_size_def stub_defs fixed_length_env_def
  scenario_config_def short_config_def self_train_steps_per_iteration_def
  self_eval_steps_per_iteration_def self_initial_collect_steps_def self_update_period_def
  ATARI_FRAME_SKIP_def from_transition_def restart_def transition_def batch_def is_last_def
  clip_reward_def clip_def train_metrics_def train_phase_metrics_def eval_metrics_def
  update_due_def py_mod_def train_step_call_def

text \<open>
  The ways through \<^verbatim>\<open>_collect_step\<close>, by what the environment answers, for a
  time step that came from the batched environment: the step fails; the step is
  an ordinary one (not \<open>LAST\<close>, or the game is over); the step is a life-loss
  boundary and the second step fails; it is one and the second step succeeds, in
  EVAL mode; and the same in TRAIN mode, where the write of the restart
  transition raises.
\<close>

lemma collect_step_fails:
  assumes "env_step ops (env st) (action (pol (policy_calls st) ts)) = Inl m"
  shows "collect_step ops pol obs train ts st =
           (Inl (EnvironmentError m),
            st\<lparr>policy_calls := policy_calls st + 1,
               env_step_calls := env_step_calls st + 1,
               collect_step_calls := collect_step_calls st + 1,
               env_failures :=
                 env_failures st @
                   [(env_reset_calls st + env_step_calls st + 1, EnvironmentError m)]\<rparr>)"
  using assms by (simp add: collect_step_defs)

lemma collect_step_plain:
  assumes "env_step ops (env st) (action (pol (policy_calls st) ts)) = Inr (nts, e1)"
    and "\<not> (is_last nts \<and> \<not> env_game_over ops e1)"
    and "batched ts"
  shows "collect_step ops pol obs train ts st =
           (Inr (batch nts),
            st\<lparr>env := e1,
               replay_buffer :=
                 (if train
                  then (replay_buffer st)
                         \<lparr>written := written (replay_buffer st) @
                            [clip_reward
                               (from_transition ts (pol (policy_calls st) ts) (batch nts))]\<rparr>
                  else replay_buffer st),
               observed :=
                 observed st @ [from_transition ts (pol (policy_calls st) ts) (batch nts)],
               env_steps_metric := env_steps_metric st + count_list obs EnvironmentSteps,
               policy_calls := policy_calls st + 1,
               env_step_calls := env_step_calls st + 1,
               collect_step_calls := collect_step_calls st + 1\<rparr>)"
  using assms
  by (auto simp add: collect_step_defs clip_reward_def from_transition_def)

lemma collect_step_life_loss_fails:
  assumes "env_step ops (env st) (action (pol (policy_calls st) ts)) = Inr (nts, e1)"
    and "is_last nts" and "\<not> env_game_over ops e1"
    and "env_step ops e1 (action (pol (policy_calls st + 1) (restart (observation nts))))
           = Inl m"
    and "batched ts"
  shows "collect_step ops pol obs train ts st =
           (Inl (EnvironmentError m),
            st\<lparr>env := e1,
               replay_buffer :=
                 (if train
                  then (replay_buffer st)
                         \<lparr>written := written (replay_buffer st) @
                            [clip_reward
                               ((from_transition ts (pol (policy_calls st) ts) (batch nts))
                                  \<lparr>traj_discount := 1\<rparr>)]\<rparr>
                  else replay_buffer st),
               observed :=
                 observed st @
                   [from_transition ts (pol (policy_calls st) ts)
                      (transition (observation nts) (reward nts) True)],
               env_steps_metric := env_steps_metric st + count_list obs EnvironmentSteps,
               policy_calls := policy_calls st + 2,
               env_step_calls := env_step_calls st + 2,
               collect_step_calls := collect_step_calls st + 1,
               life_losses := life_losses st + 1,
               env_failures :=
                 env_failures st @
                   [(env_reset_calls st + env_step_calls st + 2, EnvironmentError m)]\<rparr>)"
  using assms
  by (auto simp add: collect_step_defs transition_def restart_def clip_reward_def
      from_transition_def)

lemma collect_step_life_loss_eval:
  assumes "env_step ops (env st) (action (pol (policy_calls st) ts)) = Inr (nts, e1)"
    and "is_last nts" and "\<not> env_game_over ops e1"
    and "env_step ops e1 (action (pol (policy_calls st + 1) (restart (observation nts))))
           = Inr (nts2, e2)"
  shows "collect_step ops pol obs False ts st =
           (Inr (batch nts2),
            st\<lparr>env := e2,
               observed :=
                 observed st @
                   [from_transition ts (pol (policy_calls st) ts)
                      (transition (observation nts) (reward nts) True),
                    from_transition (transition (observation nts) (reward ts) (batched ts))
                      (pol (policy_calls st + 1) (restart (observation nts))) (batch nts2)],
               env_steps_metric := env_steps_metric st + 2 * count_list obs EnvironmentSteps,
               policy_calls := policy_calls st + 2,
               env_step_calls := env_step_calls st + 2,
               collect_step_calls := collect_step_calls st + 1,
               life_losses := life_losses st + 1\<rparr>)"
  using assms by (auto simp add: collect_step_defs transition_def restart_def)

lemma collect_step_life_loss_train:
  assumes "env_step ops (env st) (action (pol (policy_calls st) ts)) = Inr (nts, e1)"
    and "is_last nts" and "\<not> env_game_over ops e1"
    and "env_step ops e1 (action (pol (policy_calls st + 1) (restart (observation nts))))
           = Inr (nts2, e2)"
    and "batched ts"
  shows "collect_step ops pol obs True ts st =
           (Inl IndexError,
            st\<lparr>env := e2,
               replay_buffer :=
                 (replay_buffer st)
                   \<lparr>written := written (replay_buffer st) @
                      [clip_reward
                         ((from_transition ts (pol (policy_calls st) ts) (batch nts))
                            \<lparr>traj_discount := 1\<rparr>)]\<rparr>,
               observed :=
                 observed st @
                   [from_transition ts (pol (policy_calls st) ts)
                      (transition (observation nts) (reward nts) True)],
               env_steps_metric := env_steps_metric st + count_list obs EnvironmentSteps,
               policy_calls := policy_calls st + 2,
               env_step_calls := env_step_calls st + 2,
               collect_step_calls := collect_step_calls st + 1,
               life_losses := life_losses st + 1\<rparr>)"
  using assms
  by (auto simp add: collect_step_defs transition_def restart_def clip_reward_def
      from_transition_def)

lemma collect_step_store_raises:
  assumes "env_step ops (env st) (action (pol (policy_calls st) ts)) = Inr (nts, e1)"
    and "\<not> batched ts"
  shows "collect_step ops pol obs True ts st =
           (Inl IndexError,
            st\<lparr>env := e1,
               policy_calls := policy_calls st + 1,
               env_step_calls := env_step_calls st + 1,
               collect_step_calls := collect_step_calls st + 1\<rparr>)"
  using assms
  by (auto simp add: collect_step_defs clip_reward_def from_transition_def)

section \<open>What a life-loss boundary writes to the store\<close>

text \<open>
  Claim C1 says that in TRAIN mode a life-loss boundary (the step returns \<open>LAST\<close>
  while the emulator's game is not over) writes exactly one transition to the
  store, the synthetic restart. The source means to write that transition
  ("Produce the next step as if this is the first step of an episode and store to
  RB as such"), after the boundary-crossing one that \<^verbatim>\<open>_store_to_rb(traj)\<close> has
  already written before the splice. But the restart step comes from
  \<^verbatim>\<open>ts.restart\<close> without a batch size, the transition built on it has a step
  type without batch dimension, and \<^verbatim>\<open>add_batch\<close> raises \<^verbatim>\<open>IndexError\<close>.

  The episode below meets one life-loss boundary and then the end of the game.
  Its collect step makes both environment steps, leaves in the store the
  boundary-crossing transition alone (discount overridden, reward clipped), has
  delivered one transition to the observers, and ends the episode with the
  error.
\<close>

theorem life_loss_restart_write_raises:
  "map_option fst
     (run_episode 1 stub noop_policy (train_metrics @ train_phase_metrics) True 4
        (fresh 100 [life_lost 5, game_ends 2])) = Some (Inl IndexError)
   \<and> map_option (written \<circ> replay_buffer \<circ> snd)
       (run_episode 1 stub noop_policy (train_metrics @ train_phase_metrics) True 4
          (fresh 100 [life_lost 5, game_ends 2])) =
     Some [\<lparr>traj_step_type = FIRST, traj_observation = 0, traj_action = 0, traj_policy_info = 0,
             traj_next_step_type = LAST, traj_reward = 1, traj_discount = 1,
             traj_batched = True\<rparr>]
   \<and> map_option (observed \<circ> snd)
       (run_episode 1 stub noop_policy (train_metrics @ train_phase_metrics) True 4
          (fresh 100 [life_lost 5, game_ends 2])) =
     Some [\<lparr>traj_step_type = FIRST, traj_observation = 0, traj_action = 0, traj_policy_info = 0,
             traj_next_step_type = MID, traj_reward = 5, traj_discount = 1,
             traj_batched = True\<rparr>]
   \<and> map_option (env_step_calls \<circ> snd)
       (run_episode 1 stub noop_policy (train_metrics @ train_phase_metrics) True 4
          (fresh 100 [life_lost 5, game_ends 2])) = Some 2"
  by (simp add: run_episode_def call_reset_def collect_step_defs stub_defs from_transition_def
      clip_reward_def clip_def restart_def transition_def is_last_def batch_def)

section \<open>What the metric observers see at a life-loss boundary\<close>

text \<open>
  Claim C2 says that at a life-loss boundary, in either mode, the episode does not
  terminate and the metric observers receive exactly two transitions whose
  rewards sum to the single-step reward of the boundary-crossing transition. In
  EVAL mode the observers do receive two transitions, but the second carries the
  reward of the second environment step (\<^verbatim>\<open>from_transition\<close> takes the reward of
  the next time step; the \<^verbatim>\<open>reward\<close> saved from the previous time step goes into
  a time step whose reward no transition reads). Below, the boundary step has
  reward 5 and the step after it reward 2: the observed rewards are 5 and 2,
  which sum to 7.
\<close>

theorem observed_rewards_counterexample:
  "map traj_reward
     (observed (snd (collect_step stub noop_policy eval_metrics False (transition 1 4 True)
                       (fresh 100 [life_lost 5, mid 2])))) = [5, 2]
   \<and> reward (fst (life_lost 5)) = 5"
  by (simp add: collect_step_defs stub_defs from_transition_def
      clip_reward_def clip_def restart_def transition_def is_last_def batch_def)

text \<open>
  Claim C2, amended: at a life-loss boundary met in EVAL mode, whose second
  environment step succeeds, the observers receive exactly two transitions: the
  boundary-crossing one re-expressed as ending in a \<open>MID\<close> step, with the
  boundary step's reward, and one from a \<open>MID\<close> step at the post-life-loss
  observation to the result of the second step, with the second step's reward.
  Their rewards sum to the rewards of the two environment steps, so the return of
  the episode is conserved. The boundary does not end the episode: the loop of
  \<^verbatim>\<open>_run_episode\<close> returns after this collect step exactly when the emulator
  reports game over after the second step, and goes on otherwise.
\<close>

theorem life_loss_observations:
  assumes "env_step ops (env st) (action (pol (policy_calls st) ts)) = Inr (nts, e1)"
    and "is_last nts" and "\<not> env_game_over ops e1"
    and "env_step ops e1 (action (pol (policy_calls st + 1) (restart (observation nts))))
           = Inr (nts2, e2)"
  shows "fst (collect_step ops pol obs False ts st) = Inr (batch nts2)
         \<and> observed (snd (collect_step ops pol obs False ts st)) =
           observed st @
             [from_transition ts (pol (policy_calls st) ts)
                (transition (observation nts) (reward nts) True),
              from_transition (transition (observation nts) (reward ts) (batched ts))
                (pol (policy_calls st + 1) (restart (observation nts))) (batch nts2)]
         \<and> traj_next_step_type
             (from_transition ts (pol (policy_calls st) ts)
                (transition (observation nts) (reward nts) True)) = MID
         \<and> traj_step_type
             (from_transition (transition (observation nts) (reward ts) (batched ts))
                (pol (policy_calls st + 1) (restart (observation nts))) (batch nts2)) = MID
         \<and> traj_reward
             (from_transition ts (pol (policy_calls st) ts)
                (transition (observation nts) (reward nts) True))
           + traj_reward
               (from_transition (transition (observation nts) (reward ts) (batched ts))
                  (pol (policy_calls st + 1) (restart (observation nts))) (batch nts2))
           = reward nts + reward nts2
         \<and> run_episode_loop (Suc fuel) ops pol obs False period ts n st =
             (if env_game_over ops e2
              then Some (Inr (n + 1), snd (collect_step ops pol obs False ts st))
              else run_episode_loop fuel ops pol obs False period (batch nts2) (n + 1)
                     (snd (collect_step ops pol obs False ts st)))"
  by (simp add: collect_step_life_loss_eval [OF assms] from_transition_def transition_def
      game_over_def)

theorem life_loss_observations_witness:
  "env_step stub (env (fresh 100 [life_lost 5, mid 2]))
      (action (noop_policy (policy_calls (fresh 100 [life_lost 5, mid 2])) (transition 1 4 True)))
     = Inr (fst (life_lost 5), \<lparr>script = [mid 2], over = False\<rparr>)
   \<and> is_last (fst (life_lost 5))
   \<and> \<not> env_game_over stub \<lparr>script = [mid 2], over = False\<rparr>
   \<and> env_step stub \<lparr>script = [mid 2], over = False\<rparr>
        (action (noop_policy (policy_calls (fresh 100 [life_lost 5, mid 2]) + 1)
                   (restart (observation (fst (life_lost 5))))))
     = Inr (fst (mid 2), \<lparr>script = [], over = False\<rparr>)
   \<and> observed (snd (collect_step stub noop_policy eval_metrics False (transition 1 4 True)
                       (fresh 100 [life_lost 5, mid 2]))) =
       [\<lparr>traj_step_type = MID, traj_observation = 1, traj_action = 0, traj_policy_info = 0,
         traj_next_step_type = MID, traj_reward = 5, traj_discount = 1, traj_batched = True\<rparr>,
        \<lparr>traj_step_type = MID, traj_observation = 2, traj_action = 0, traj_policy_info = 0,
         traj_next_step_type = MID, traj_reward = 2, traj_discount = 1, traj_batched = True\<rparr>]"
proof -
  have h1: "env_step stub (env (fresh 100 [life_lost 5, mid 2]))
      (action (noop_policy (policy_calls (fresh 100 [life_lost 5, mid 2])) (transition 1 4 True)))
     = Inr (fst (life_lost 5), \<lparr>script = [mid 2], over = False\<rparr>)"
    by (simp add: stub_defs)
  have h2: "is_last (fst (life_lost 5))"
    by (simp add: is_last_def life_lost_def)
  have h3: "\<not> env_game_over stub \<lparr>script = [mid 2], over = False\<rparr>"
    by (simp add: stub_def)
  have h4: "env_step stub \<lparr>script = [mid 2], over = False\<rparr>
        (action (noop_policy (policy_calls (fresh 100 [life_lost 5, mid 2]) + 1)
                   (restart (observation (fst (life_lost 5))))))
     = Inr (fst (mid 2), \<lparr>script = [], over = False\<rparr>)"
    by (simp add: stub_defs)
  have c: "observed (snd (collect_step stub noop_policy eval_metrics False (transition 1 4 True)
                       (fresh 100 [life_lost 5, mid 2]))) =
       [\<lparr>traj_step_type = MID, traj_observation = 1, traj_action = 0, traj_policy_info = 0,
         traj_next_step_type = MID, traj_reward = 5, traj_discount = 1, traj_batched = True\<rparr>,
        \<lparr>traj_step_type = MID, traj_observation = 2, traj_action = 0, traj_policy_info = 0,
         traj_next_step_type = MID, traj_reward = 2, traj_discount = 1, traj_batched = True\<rparr>]"
    using life_loss_observations [OF h1 h2 h3 h4, of eval_metrics 0 0 0,
        THEN conjunct2, THEN conjunct1]
    by (simp add: stub_defs from_transition_def restart_def transition_def batch_def)
  show ?thesis
    by (intro conjI h1 h2 h3 h4 c)
qed

section \<open>The discount override at a life-loss boundary\<close>

text \<open>
  When the first environment step of a collect step returns \<open>LAST\<close> while the
  emulator reports that the game is not over, the assembled transition's discount
  is overridden to 1 before anything is stored or observed: the transition the
  collect step writes first (in TRAIN mode) is the assembled one with discount 1
  and clipped reward, the transition it delivers first to the observers is the
  boundary-crossing one with discount 1, and in EVAL mode nothing is written.
\<close>

lemma first_step_discount_override:
  assumes "env_step ops (env st) (action (pol (policy_calls st) ts)) = Inr (nts, e1)"
    and "is_last nts" and "\<not> env_game_over ops e1" and "batched ts"
  shows "traj_discount
           (clip_reward
              ((from_transition ts (pol (policy_calls st) ts) (batch nts))\<lparr>traj_discount := 1\<rparr>)) = 1
         \<and> traj_discount
             (from_transition ts (pol (policy_calls st) ts)
                (transition (observation nts) (reward nts) True)) = 1
         \<and> (\<exists>rest. written (replay_buffer (snd (collect_step ops pol obs train ts st))) =
               written (replay_buffer st) @
                 (if train
                  then clip_reward
                         ((from_transition ts (pol (policy_calls st) ts) (batch nts))
                            \<lparr>traj_discount := 1\<rparr>)
                       # rest
                  else []))
         \<and> (\<exists>rest. observed (snd (collect_step ops pol obs train ts st)) =
               observed st @
                 from_transition ts (pol (policy_calls st) ts)
                   (transition (observation nts) (reward nts) True) # rest)"
proof (cases "env_step ops e1 (action (pol (policy_calls st + 1) (restart (observation nts))))")
  case (Inl e)
  show ?thesis
    by (simp add: collect_step_life_loss_fails [OF assms(1-3) Inl assms(4)] clip_reward_def
        from_transition_def transition_def)
next
  case (Inr r)
  obtain nts2 e2 where r: "r = (nts2, e2)"
    by (cases r)
  show ?thesis
  proof (cases train)
    case True
    then show ?thesis
      by (simp add: collect_step_life_loss_train [OF assms(1-3) Inr [unfolded r] assms(4)]
          clip_reward_def from_transition_def transition_def)
  next
    case False
    then show ?thesis
      by (simp add: collect_step_life_loss_eval [OF assms(1-3) Inr [unfolded r]]
          clip_reward_def from_transition_def transition_def)
  qed
qed

text \<open>
  Claim C3 says this of every step whose next time step is \<open>LAST\<close> while the game
  is not over. The second environment step of the splice is such a step when a
  second life is lost at once, or when the time limit ends the episode right
  after a life loss. \<^verbatim>\<open>_collect_step\<close> takes its result for a \<open>MID\<close> step ("The
  next_time_step will be a MID time step") and tests nothing: the transition is
  observed with the discount the environment gave. Below, in EVAL mode, two
  steps in a row lose a life; the second transition delivered to the observers
  ends in \<open>LAST\<close> with discount 0, and the game is not over.
\<close>

theorem second_step_discount_not_overridden:
  "fst (collect_step stub noop_policy eval_metrics False (batch (restart 0))
          (fresh 100 [life_lost 5, life_lost 2])) = Inr (batch (fst (life_lost 2)))
   \<and> game_over stub
       (snd (collect_step stub noop_policy eval_metrics False (batch (restart 0))
               (fresh 100 [life_lost 5, life_lost 2]))) = False
   \<and> observed
       (snd (collect_step stub noop_policy eval_metrics False (batch (restart 0))
               (fresh 100 [life_lost 5, life_lost 2]))) =
     [\<lparr>traj_step_type = FIRST, traj_observation = 0, traj_action = 0, traj_policy_info = 0,
       traj_next_step_type = MID, traj_reward = 5, traj_discount = 1, traj_batched = True\<rparr>,
      \<lparr>traj_step_type = MID, traj_observation = 2, traj_action = 0, traj_policy_info = 0,
       traj_next_step_type = LAST, traj_reward = 2, traj_discount = 0, traj_batched = True\<rparr>]"
  by (simp add: collect_step_defs stub_defs from_transition_def restart_def transition_def
      is_last_def batch_def)

section \<open>Frame facts\<close>

lemma collect_step_eval_store:
  "replay_buffer (snd (collect_step ops pol obs False ts st)) = replay_buffer st"
  by (simp add: collect_step_defs split: sum.splits prod.splits)

lemma collect_step_global_step:
  "global_step (snd (collect_step ops pol obs train ts st)) = global_step st"
  by (simp add: collect_step_defs split: sum.splits prod.splits)

lemma collect_step_counts:
  "collect_step_calls (snd (collect_step ops pol obs train ts st)) = collect_step_calls st + 1
   \<and> life_losses st \<le> life_losses (snd (collect_step ops pol obs train ts st))
   \<and> env_step_calls (snd (collect_step ops pol obs train ts st)) + life_losses st
       = env_step_calls st + 1 + life_losses (snd (collect_step ops pol obs train ts st))"
  by (simp add: collect_step_defs split: sum.splits prod.splits)

lemma train_step_call_counts [simp]:
  "env_step_calls (train_step_call st) = env_step_calls st"
  "collect_step_calls (train_step_call st) = collect_step_calls st"
  "life_losses (train_step_call st) = life_losses st"
  "env_steps_metric (train_step_call st) = env_steps_metric st"
  "replay_buffer (train_step_call st) = replay_buffer st"
  "global_step (train_step_call st) = global_step st + 1"
  by (simp_all add: train_step_call_def)

lemma call_reset_counts:
  "call_reset ops st = (x, st1) \<Longrightarrow>
     env_step_calls st1 = env_step_calls st \<and> collect_step_calls st1 = collect_step_calls st
     \<and> life_losses st1 = life_losses st \<and> env_steps_metric st1 = env_steps_metric st
     \<and> global_step st1 = global_step st \<and> replay_buffer st1 = replay_buffer st
     \<and> observed st1 = observed st"
  by (auto simp: call_reset_def split: sum.splits prod.splits)

section \<open>Episodes in EVAL mode leave the store alone\<close>

lemma run_episode_loop_eval_store:
  "run_episode_loop fuel ops pol obs False period ts n st = Some (r, st')
     \<Longrightarrow> replay_buffer st' = replay_buffer st"
proof (induction fuel arbitrary: ts n st)
  case 0
  then show ?case by simp
next
  case (Suc fuel)
  obtain x st1 where cs: "collect_step ops pol obs False ts st = (x, st1)"
    by (cases "collect_step ops pol obs False ts st")
  have frame: "replay_buffer st1 = replay_buffer st"
    using collect_step_eval_store [of ops pol obs ts st] cs by simp
  show ?case
  proof (cases x)
    case (Inl e)
    with Suc.prems cs frame show ?thesis by simp
  next
    case (Inr ts')
    show ?thesis
    proof (cases "game_over ops st1")
      case True
      with Suc.prems cs Inr frame show ?thesis by simp
    next
      case False
      with Suc.prems cs Inr
      have "run_episode_loop fuel ops pol obs False period ts' (n + 1) st1 = Some (r, st')"
        by simp
      from Suc.IH [OF this] frame show ?thesis by simp
    qed
  qed
qed

lemma run_episode_eval_store:
  "run_episode fuel ops pol obs False period st = Some (r, st')
     \<Longrightarrow> replay_buffer st' = replay_buffer st"
  by (auto simp: run_episode_def call_reset_def split: sum.splits prod.splits
      dest!: run_episode_loop_eval_store)

lemma eval_phase_loop_store:
  "eval_phase_loop fuel cfg ops pol m st = Some (r, st')
     \<Longrightarrow> replay_buffer st' = replay_buffer st"
proof (induction fuel arbitrary: m st)
  case 0
  then show ?case by simp
next
  case (Suc fuel)
  show ?case
  proof (cases "real m < self_eval_steps_per_iteration cfg")
    case False
    with Suc.prems show ?thesis by simp
  next
    case True
    show ?thesis
    proof (cases "run_episode fuel ops pol eval_metrics False (self_update_period cfg) st")
      case None
      with Suc.prems True show ?thesis by simp
    next
      case (Some p)
      obtain x st1 where p: "p = (x, st1)" by (cases p)
      have frame: "replay_buffer st1 = replay_buffer st"
        using run_episode_eval_store Some p by blast
      show ?thesis
      proof (cases x)
        case (Inl e)
        with Suc.prems True Some p frame show ?thesis by simp
      next
        case (Inr k)
        with Suc.prems True Some p
        have "eval_phase_loop fuel cfg ops pol (m + k) st1 = Some (r, st')"
          by simp
        from Suc.IH [OF this] frame show ?thesis by simp
      qed
    qed
  qed
qed

text \<open>
  Claim C6: an episode run in EVAL mode never mutates the experience store. For
  any environment, policy, observers and fuel, and whatever the episode returns
  (a step count or an error of the environment), the store after it is the store
  before it, contents and size; the same holds for the whole eval phase of
  \<^verbatim>\<open>run\<close>. The witness runs an eval episode that meets a life-loss boundary.
\<close>

theorem eval_never_mutates_store:
  "(run_episode fuel ops pol obs False period st = Some (r, st')
      \<longrightarrow> replay_buffer st' = replay_buffer st
          \<and> rb_size (replay_buffer st') = rb_size (replay_buffer st))
   \<and> (eval_phase_loop fuel2 cfg ops pol m st = Some (r2, st2)
      \<longrightarrow> replay_buffer st2 = replay_buffer st
          \<and> rb_size (replay_buffer st2) = rb_size (replay_buffer st))"
  using run_episode_eval_store [of fuel ops pol obs period st r st']
    eval_phase_loop_store [of fuel2 cfg ops pol m st r2 st2]
  by simp

theorem eval_never_mutates_store_witness:
  "map_option fst
     (run_episode 2 stub noop_policy eval_metrics False 4
        (fresh 100 [life_lost 5, mid 2, game_ends 0])) = Some (Inr 2)
   \<and> map_option (replay_buffer \<circ> snd)
       (run_episode 2 stub noop_policy eval_metrics False 4
          (fresh 100 [life_lost 5, mid 2, game_ends 0]))
     = Some (replay_buffer (fresh 100 [life_lost 5, mid 2, game_ends 0]))"
proof -
  have ev: "map_option fst
     (run_episode 2 stub noop_policy eval_metrics False 4
        (fresh 100 [life_lost 5, mid 2, game_ends 0])) = Some (Inr 2)"
    by (simp add: run_episode_def call_reset_def collect_step_defs stub_defs from_transition_def
        restart_def transition_def is_last_def eval_nat_numeral)
  then obtain st' where run: "run_episode 2 stub noop_policy eval_metrics False 4
        (fresh 100 [life_lost 5, mid 2, game_ends 0]) = Some (Inr 2, st')"
    by (cases "run_episode 2 stub noop_policy eval_metrics False 4
        (fresh 100 [life_lost 5, mid 2, game_ends 0])") auto
  from eval_never_mutates_store [THEN conjunct1, rule_format, OF run]
  have "replay_buffer st' = replay_buffer (fresh 100 [life_lost 5, mid 2, game_ends 0])"
    by simp
  with ev run show ?thesis by simp
qed

section \<open>What the returned step count counts\<close>

lemma run_episode_loop_counts:
  "run_episode_loop fuel ops pol obs train period ts n st = Some (r, st')
     \<Longrightarrow> life_losses st \<le> life_losses st'
         \<and> env_step_calls st' + collect_step_calls st + life_losses st
           = env_step_calls st + collect_step_calls st' + life_losses st'
         \<and> (\<forall>k. r = Inr k \<longrightarrow> collect_step_calls st' + n = collect_step_calls st + k)"
proof (induction fuel arbitrary: ts n st)
  case 0
  then show ?case by simp
next
  case (Suc fuel)
  obtain x st1 where cs: "collect_step ops pol obs train ts st = (x, st1)"
    by (cases "collect_step ops pol obs train ts st")
  have c1: "collect_step_calls st1 = collect_step_calls st + 1"
    and c2: "life_losses st \<le> life_losses st1"
    and c3: "env_step_calls st1 + life_losses st = env_step_calls st + 1 + life_losses st1"
    using collect_step_counts [of ops pol obs train ts st] cs by simp_all
  show ?case
  proof (cases x)
    case (Inl e)
    with Suc.prems cs c1 c2 c3 show ?thesis by auto
  next
    case (Inr ts')
    show ?thesis
    proof (cases "game_over ops st1")
      case True
      with Suc.prems cs Inr c1 c2 c3 show ?thesis by auto
    next
      case False
      show ?thesis
      proof (cases "train \<and> update_due (env_steps_metric st1) period")
        case True
        with Suc.prems cs Inr False
        have "run_episode_loop fuel ops pol obs train period ts' (n + 1) (train_step_call st1)
                = Some (r, st')"
          by simp
        from Suc.IH [OF this] c1 c2 c3 show ?thesis by auto
      next
        case no_update: False
        with Suc.prems cs Inr False
        have "run_episode_loop fuel ops pol obs train period ts' (n + 1) st1 = Some (r, st')"
          by auto
        from Suc.IH [OF this] c1 c2 c3 show ?thesis by auto
      qed
    qed
  qed
qed

text \<open>
  Claim C9: a collect step that meets a life-loss boundary, from a time step of
  the batched environment (every time step that \<^verbatim>\<open>_run_episode\<close> passes on is
  one), calls \<^verbatim>\<open>env.step\<close> twice but is one collect step, in TRAIN mode too,
  where the second call precedes the write that raises; and \<^verbatim>\<open>_run_episode\<close>
  adds one to its counter per collect step. So the count an episode returns is
  the number of collect steps, and the number of calls of \<^verbatim>\<open>env.step\<close> is that
  count plus the number of life-loss boundaries met.
\<close>

theorem steps_taken_counts_collect_steps:
  "(env_step ops (env st) (action (pol (policy_calls st) ts)) = Inr (nts, e1)
      \<and> is_last nts \<and> \<not> env_game_over ops e1 \<and> batched ts
    \<longrightarrow> env_step_calls (snd (collect_step ops pol obs train ts st)) = env_step_calls st + 2
        \<and> collect_step_calls (snd (collect_step ops pol obs train ts st))
            = collect_step_calls st + 1)
   \<and> (run_episode fuel ops pol obs train period st = Some (Inr n, st')
    \<longrightarrow> collect_step_calls st' = collect_step_calls st + n
        \<and> env_step_calls st' = env_step_calls st + n + (life_losses st' - life_losses st))"
proof (intro conjI impI)
  assume a: "env_step ops (env st) (action (pol (policy_calls st) ts)) = Inr (nts, e1)
      \<and> is_last nts \<and> \<not> env_game_over ops e1 \<and> batched ts"
  then show "env_step_calls (snd (collect_step ops pol obs train ts st)) = env_step_calls st + 2"
    by (auto simp: collect_step_defs split: sum.splits prod.splits)
  show "collect_step_calls (snd (collect_step ops pol obs train ts st)) = collect_step_calls st + 1"
    using collect_step_counts [of ops pol obs train ts st] by simp
next
  assume run: "run_episode fuel ops pol obs train period st = Some (Inr n, st')"
  then obtain ts0 st1 where cr: "call_reset ops st = (Inr ts0, st1)"
    and loop: "run_episode_loop fuel ops pol obs train period ts0 0 st1 = Some (Inr n, st')"
    by (auto simp: run_episode_def split: sum.splits prod.splits)
  from run_episode_loop_counts [OF loop] call_reset_counts [OF cr]
  show "collect_step_calls st' = collect_step_calls st + n"
    and "env_step_calls st' = env_step_calls st + n + (life_losses st' - life_losses st)"
    by auto
qed

theorem steps_taken_counts_collect_steps_witness:
  "env_step stub (env (fresh 100 [life_lost 5, mid 2]))
      (action (noop_policy (policy_calls (fresh 100 [life_lost 5, mid 2])) (batch (restart 0))))
     = Inr (fst (life_lost 5), \<lparr>script = [mid 2], over = False\<rparr>)
   \<and> is_last (fst (life_lost 5))
   \<and> \<not> env_game_over stub \<lparr>script = [mid 2], over = False\<rparr>
   \<and> batched (batch (restart 0))
   \<and> env_step_calls
       (snd (collect_step stub noop_policy train_metrics True (batch (restart 0))
               (fresh 100 [life_lost 5, mid 2]))) = 2
   \<and> collect_step_calls
       (snd (collect_step stub noop_policy train_metrics True (batch (restart 0))
               (fresh 100 [life_lost 5, mid 2]))) = 1
   \<and> map_option fst
       (run_episode 2 stub noop_policy eval_metrics False 4
          (fresh 100 [life_lost 5, mid 2, game_ends 0])) = Some (Inr 2)
   \<and> map_option (collect_step_calls \<circ> snd)
       (run_episode 2 stub noop_policy eval_metrics False 4
          (fresh 100 [life_lost 5, mid 2, game_ends 0])) = Some 2
   \<and> map_option (env_step_calls \<circ> snd)
       (run_episode 2 stub noop_policy eval_metrics False 4
          (fresh 100 [life_lost 5, mid 2, game_ends 0])) = Some 3
   \<and> map_option (life_losses \<circ> snd)
       (run_episode 2 stub noop_policy eval_metrics False 4
          (fresh 100 [life_lost 5, mid 2, game_ends 0])) = Some 1"
proof -
  have h1: "env_step stub (env (fresh 100 [life_lost 5, mid 2]))
      (action (noop_policy (policy_calls (fresh 100 [life_lost 5, mid 2])) (batch (restart 0))))
     = Inr (fst (life_lost 5), \<lparr>script = [mid 2], over = False\<rparr>)"
    by (simp add: stub_defs)
  have h2: "is_last (fst (life_lost 5))"
    by (simp add: is_last_def life_lost_def)
  have h3: "\<not> env_game_over stub \<lparr>script = [mid 2], over = False\<rparr>"
    by (simp add: stub_def)
  have h4: "batched (batch (restart 0))"
    by simp
  from steps_taken_counts_collect_steps [where ops = stub and pol = noop_policy
      and st = "fresh 100 [life_lost 5, mid 2]" and ts = "batch (restart 0)"
      and obs = train_metrics and train = True, THEN conjunct1, rule_format,
      OF conjI [OF h1 conjI [OF h2 conjI [OF h3 h4]]]]
  have c1: "env_step_calls
       (snd (collect_step stub noop_policy train_metrics True (batch (restart 0))
               (fresh 100 [life_lost 5, mid 2]))) = 2"
    and c2: "collect_step_calls
       (snd (collect_step stub noop_policy train_metrics True (batch (restart 0))
               (fresh 100 [life_lost 5, mid 2]))) = 1"
    by (simp_all add: fresh_def initial_world_def)
  have ev: "map_option fst
     (run_episode 2 stub noop_policy eval_metrics False 4
        (fresh 100 [life_lost 5, mid 2, game_ends 0])) = Some (Inr 2)"
    and ll: "map_option (life_losses \<circ> snd)
       (run_episode 2 stub noop_policy eval_metrics False 4
          (fresh 100 [life_lost 5, mid 2, game_ends 0])) = Some 1"
    by (simp_all add: run_episode_def call_reset_def collect_step_defs stub_defs
        from_transition_def restart_def transition_def is_last_def batch_def eval_nat_numeral)
  then obtain st' where run: "run_episode 2 stub noop_policy eval_metrics False 4
        (fresh 100 [life_lost 5, mid 2, game_ends 0]) = Some (Inr 2, st')"
    by (cases "run_episode 2 stub noop_policy eval_metrics False 4
        (fresh 100 [life_lost 5, mid 2, game_ends 0])") auto
  from steps_taken_counts_collect_steps [THEN conjunct2, rule_format, OF run]
  have "collect_step_calls st' = 2"
    and "env_step_calls st' = 2 + (life_losses st' - 0)"
    by (simp_all add: fresh_def initial_world_def)
  with ev ll run have rest: "map_option fst
       (run_episode 2 stub noop_policy eval_metrics False 4
          (fresh 100 [life_lost 5, mid 2, game_ends 0])) = Some (Inr 2)
   \<and> map_option (collect_step_calls \<circ> snd)
       (run_episode 2 stub noop_policy eval_metrics False 4
          (fresh 100 [life_lost 5, mid 2, game_ends 0])) = Some 2
   \<and> map_option (env_step_calls \<circ> snd)
       (run_episode 2 stub noop_policy eval_metrics False 4
          (fresh 100 [life_lost 5, mid 2, game_ends 0])) = Some 3
   \<and> map_option (life_losses \<circ> snd)
       (run_episode 2 stub noop_policy eval_metrics False 4
          (fresh 100 [life_lost 5, mid 2, game_ends 0])) = Some 1"
    by simp
  show ?thesis
    by (intro conjI h1 h2 h3 h4 c1 c2 rest [THEN conjunct1]
        rest [THEN conjunct2, THEN conjunct1]
        rest [THEN conjunct2, THEN conjunct2, THEN conjunct1]
        rest [THEN conjunct2, THEN conjunct2, THEN conjunct2])
qed

section \<open>A failure of the environment is fatal\<close>

lemma raised_simps [simp]:
  "raised (Inl e) st =
     (case e of
        EnvironmentError m \<Rightarrow> [(env_reset_calls st + env_step_calls st, EnvironmentError m)]
      | IndexError \<Rightarrow> [])"
  "raised (Inr v) st = []"
  by (simp_all add: raised_def)

lemma call_reset_failures:
  "call_reset ops st = (r, st') \<Longrightarrow> env_failures st' = env_failures st @ raised r st'"
  by (auto simp: call_reset_def split: sum.splits prod.splits)

lemma collect_step_failures:
  "collect_step ops pol obs train ts st = (r, st') \<Longrightarrow> env_failures st' = env_failures st @ raised r st'"
  by (auto simp: collect_step_defs split: sum.splits prod.splits if_splits)

lemma train_step_call_failures [simp]:
  "env_failures (train_step_call st) = env_failures st"
  by (simp add: train_step_call_def)

lemma run_episode_loop_failures:
  "run_episode_loop fuel ops pol obs train period ts n st = Some (r, st')
     \<Longrightarrow> env_failures st' = env_failures st @ raised r st'"
proof (induction fuel arbitrary: ts n st)
  case 0
  then show ?case by simp
next
  case (Suc fuel)
  obtain x st1 where cs: "collect_step ops pol obs train ts st = (x, st1)"
    by (cases "collect_step ops pol obs train ts st")
  note f1 = collect_step_failures [OF cs]
  show ?case
  proof (cases x)
    case (Inl e)
    with Suc.prems cs f1 show ?thesis by auto
  next
    case (Inr ts')
    with f1 have same: "env_failures st1 = env_failures st" by simp
    show ?thesis
    proof (cases "game_over ops st1")
      case True
      with Suc.prems cs Inr same show ?thesis by auto
    next
      case False
      show ?thesis
      proof (cases "train \<and> update_due (env_steps_metric st1) period")
        case True
        with Suc.prems cs Inr False
        have "run_episode_loop fuel ops pol obs train period ts' (n + 1) (train_step_call st1)
                = Some (r, st')"
          by simp
        from Suc.IH [OF this] same show ?thesis by simp
      next
        case no_update: False
        with Suc.prems cs Inr False
        have "run_episode_loop fuel ops pol obs train period ts' (n + 1) st1 = Some (r, st')"
          by auto
        from Suc.IH [OF this] same show ?thesis by simp
      qed
    qed
  qed
qed

lemma run_episode_failures:
  "run_episode fuel ops pol obs train period st = Some (r, st')
     \<Longrightarrow> env_failures st' = env_failures st @ raised r st'"
proof -
  assume run: "run_episode fuel ops pol obs train period st = Some (r, st')"
  obtain x st1 where cr: "call_reset ops st = (x, st1)"
    by (cases "call_reset ops st")
  note f1 = call_reset_failures [OF cr]
  show ?thesis
  proof (cases x)
    case (Inl e)
    with run cr f1 show ?thesis by (auto simp: run_episode_def)
  next
    case (Inr ts)
    with run cr f1 show ?thesis
      by (auto simp: run_episode_def dest!: run_episode_loop_failures)
  qed
qed

lemma initial_collect_loop_failures:
  "initial_collect_loop fuel ops rp thr ts st = Some (r, st')
     \<Longrightarrow> env_failures st' = env_failures st @ raised r st'"
proof (induction fuel arbitrary: ts st)
  case 0
  then show ?case by simp
next
  case (Suc fuel)
  show ?case
  proof (cases "real (rb_size (replay_buffer st)) < thr")
    case False
    with Suc.prems show ?thesis by auto
  next
    case True
    obtain x st1 where cr:
      "(if game_over ops st then call_reset ops st else (Inr ts, st)) = (x, st1)"
      by (cases "if game_over ops st then call_reset ops st else (Inr ts, st)")
    have f1: "env_failures st1 = env_failures st @ raised x st1"
      using cr call_reset_failures [of ops st x st1] by (auto split: if_splits)
    show ?thesis
    proof (cases x)
      case (Inl e)
      with Suc.prems True cr f1 show ?thesis by auto
    next
      case (Inr ts1)
      with f1 have same1: "env_failures st1 = env_failures st" by simp
      obtain y st3 where cs:
        "call_step ops (action (rp (policy_calls st1) ts1))
           (st1\<lparr>policy_calls := policy_calls st1 + 1\<rparr>) = (y, st3)"
        by (cases "call_step ops (action (rp (policy_calls st1) ts1))
           (st1\<lparr>policy_calls := policy_calls st1 + 1\<rparr>)")
      have f3: "env_failures st3 = env_failures st1 @ raised y st3"
        using cs by (auto simp: call_step_def split: sum.splits prod.splits)
      show ?thesis
      proof (cases y)
        case (Inl e)
        with Suc.prems True cr Inr cs f3 same1 show ?thesis
          by (auto simp: policy_action_def)
      next
        case inr_y: (Inr nts)
        with f3 same1 have same3: "env_failures st3 = env_failures st" by simp
        show ?thesis
        proof (cases "traj_batched (from_transition ts1 (rp (policy_calls st1) ts1) nts)")
          case False
          with Suc.prems True cr Inr cs inr_y same3 show ?thesis
            by (auto simp: policy_action_def add_batch_def)
        next
          case batched: True
          with Suc.prems True cr Inr cs inr_y
          have "initial_collect_loop fuel ops rp thr nts
                  (st3\<lparr>replay_buffer :=
                        (replay_buffer st3)
                          \<lparr>written := written (replay_buffer st3) @
                             [from_transition ts1 (rp (policy_calls st1) ts1) nts]\<rparr>\<rparr>)
                  = Some (r, st')"
            by (auto simp: policy_action_def add_batch_def)
          from Suc.IH [OF this] same3 show ?thesis by simp
        qed
      qed
    qed
  qed
qed

lemma initial_collect_failures:
  "initial_collect fuel cfg ops rp st = Some (r, st')
     \<Longrightarrow> env_failures st' = env_failures st @ raised r st'"
proof -
  assume run: "initial_collect fuel cfg ops rp st = Some (r, st')"
  obtain x st1 where cr: "call_reset ops st = (x, st1)"
    by (cases "call_reset ops st")
  note f1 = call_reset_failures [OF cr]
  show ?thesis
  proof (cases x)
    case (Inl e)
    with run cr f1 show ?thesis by (auto simp: initial_collect_def)
  next
    case (Inr ts)
    with run cr f1 show ?thesis
      by (auto simp: initial_collect_def dest!: initial_collect_loop_failures)
  qed
qed

lemma train_phase_loop_failures:
  "train_phase_loop fuel cfg ops pol m st = Some (r, st')
     \<Longrightarrow> env_failures st' = env_failures st @ raised r st'"
proof (induction fuel arbitrary: m st)
  case 0
  then show ?case by simp
next
  case (Suc fuel)
  show ?case
  proof (cases "real m < self_train_steps_per_iteration cfg")
    case False
    with Suc.prems show ?thesis by auto
  next
    case True
    show ?thesis
    proof (cases "run_episode fuel ops pol (train_metrics @ train_phase_metrics) True
                    (self_update_period cfg) st")
      case None
      with Suc.prems True show ?thesis by simp
    next
      case (Some p)
      obtain x st1 where p: "p = (x, st1)" by (cases p)
      note f1 = run_episode_failures [OF Some [unfolded p]]
      show ?thesis
      proof (cases x)
        case (Inl e)
        with Suc.prems True Some p f1 show ?thesis by auto
      next
        case (Inr k)
        with Suc.prems True Some p
        have "train_phase_loop fuel cfg ops pol (m + k) st1 = Some (r, st')"
          by simp
        from Suc.IH [OF this] f1 Inr show ?thesis by simp
      qed
    qed
  qed
qed

lemma eval_phase_loop_failures:
  "eval_phase_loop fuel cfg ops pol m st = Some (r, st')
     \<Longrightarrow> env_failures st' = env_failures st @ raised r st'"
proof (induction fuel arbitrary: m st)
  case 0
  then show ?case by simp
next
  case (Suc fuel)
  show ?case
  proof (cases "real m < self_eval_steps_per_iteration cfg")
    case False
    with Suc.prems show ?thesis by auto
  next
    case True
    show ?thesis
    proof (cases "run_episode fuel ops pol eval_metrics False (self_update_period cfg) st")
      case None
      with Suc.prems True show ?thesis by simp
    next
      case (Some p)
      obtain x st1 where p: "p = (x, st1)" by (cases p)
      note f1 = run_episode_failures [OF Some [unfolded p]]
      show ?thesis
      proof (cases x)
        case (Inl e)
        with Suc.prems True Some p f1 show ?thesis by auto
      next
        case (Inr k)
        with Suc.prems True Some p
        have "eval_phase_loop fuel cfg ops pol (m + k) st1 = Some (r, st')"
          by simp
        from Suc.IH [OF this] f1 Inr show ?thesis by simp
      qed
    qed
  qed
qed

lemma run_loop_failures:
  "run_loop fuel cfg ops pol st = Some (r, st')
     \<Longrightarrow> env_failures st' = env_failures st @ raised r st'"
proof (induction fuel arbitrary: st)
  case 0
  then show ?case by simp
next
  case (Suc fuel)
  show ?case
  proof (cases "iteration_metric st < num_iterations cfg")
    case False
    with Suc.prems show ?thesis by auto
  next
    case True
    show ?thesis
    proof (cases "train_phase_loop fuel cfg ops pol 0 st")
      case None
      with Suc.prems True show ?thesis by simp
    next
      case (Some p)
      obtain x st1 where p: "p = (x, st1)" by (cases p)
      note f1 = train_phase_loop_failures [OF Some [unfolded p]]
      show ?thesis
      proof (cases x)
        case (Inl e)
        with Suc.prems True Some p f1 show ?thesis by auto
      next
        case (Inr k)
        with f1 have same1: "env_failures st1 = env_failures st" by simp
        show ?thesis
        proof (cases "if do_eval cfg then eval_phase_loop fuel cfg ops pol 0 st1
                      else Some (Inr 0, st1)")
          case None
          with Suc.prems True Some p Inr show ?thesis by simp
        next
          case some2: (Some q)
          obtain y st2 where q: "q = (y, st2)" by (cases q)
          have f2: "env_failures st2 = env_failures st1 @ raised y st2"
            using some2 q eval_phase_loop_failures [of fuel cfg ops pol 0 st1 y st2]
            by (auto split: if_splits)
          show ?thesis
          proof (cases y)
            case (Inl e)
            with Suc.prems True Some p \<open>x = Inr k\<close> some2 q f2 same1 show ?thesis by auto
          next
            case inr2: (Inr j)
            with Suc.prems True Some p \<open>x = Inr k\<close> some2 q
            have "run_loop fuel cfg ops pol (st2\<lparr>iteration_metric := iteration_metric st2 + 1\<rparr>)
                    = Some (r, st')"
              by simp
            from Suc.IH [OF this] f2 inr2 same1 show ?thesis by simp
          qed
        qed
      qed
    qed
  qed
qed

lemma run_failures:
  "run fuel cfg ops rp pol st = Some (r, st')
     \<Longrightarrow> env_failures st' = env_failures st @ raised r st'"
proof -
  assume run: "run fuel cfg ops rp pol st = Some (r, st')"
  show ?thesis
  proof (cases "initial_collect fuel cfg ops rp st")
    case None
    with run show ?thesis by (simp add: run_def)
  next
    case (Some p)
    obtain x st1 where p: "p = (x, st1)" by (cases p)
    note f1 = initial_collect_failures [OF Some [unfolded p]]
    show ?thesis
    proof (cases x)
      case (Inl e)
      with run Some p f1 show ?thesis by (auto simp: run_def)
    next
      case (Inr u)
      with run Some p have "run_loop fuel cfg ops pol st1 = Some (r, st')"
        by (simp add: run_def)
      from run_loop_failures [OF this] f1 Inr show ?thesis by simp
    qed
  qed
qed

text \<open>
  Claim C10: a failure of \<^verbatim>\<open>env.reset\<close> or \<^verbatim>\<open>env.step\<close> propagates uncaught
  through the episode driver and through \<^verbatim>\<open>run\<close>, and the run fails.

  Whenever an episode, or the whole run, returns, the failures the environment
  raised meanwhile are \<open>raised\<close> of the result: none if it returned a value, so
  no failure is ever swallowed; and if it returned an error of the environment,
  exactly that error, raised by the last call made to the environment, so
  nothing is retried after it.

  And the error is returned, at every level and for any fuel: a failing reset
  makes the episode, the initial collection and the run return it at once; a
  failing step, the first or the second of a life-loss splice, makes the collect
  step return it; the episode loop returns the error of a collect step and the
  episode that of its loop; the train and eval phases return the error of an
  episode; the iteration loop returns the error of a phase; \<^verbatim>\<open>run\<close> returns the
  error of the initial collection and of the iteration loop; the initial
  collection returns the error of a reset or step inside its loop.
\<close>

theorem environment_failure_is_fatal:
  "(run_episode fuel ops pol obs train period st = Some (r, st')
      \<longrightarrow> env_failures st' = env_failures st @ raised r st')
   \<and> (run fuel2 cfg ops rp pol st = Some (r2, st2)
      \<longrightarrow> env_failures st2 = env_failures st @ raised r2 st2)
   \<and> (env_reset ops (env st) = Inl m
      \<longrightarrow> fst (call_reset ops st) = Inl (EnvironmentError m)
          \<and> run_episode fuel ops pol obs train period st
              = Some (Inl (EnvironmentError m), snd (call_reset ops st))
          \<and> initial_collect fuel cfg ops rp st
              = Some (Inl (EnvironmentError m), snd (call_reset ops st))
          \<and> run fuel cfg ops rp pol st
              = Some (Inl (EnvironmentError m), snd (call_reset ops st)))
   \<and> (env_step ops (env st) (action (pol (policy_calls st) ts)) = Inl m
      \<longrightarrow> fst (collect_step ops pol obs train ts st) = Inl (EnvironmentError m))
   \<and> (env_step ops (env st) (action (pol (policy_calls st) ts)) = Inr (nts, e1)
        \<and> is_last nts \<and> \<not> env_game_over ops e1 \<and> batched ts
        \<and> env_step ops e1 (action (pol (policy_calls st + 1) (restart (observation nts))))
            = Inl m
      \<longrightarrow> fst (collect_step ops pol obs train ts st) = Inl (EnvironmentError m))
   \<and> (fst (collect_step ops pol obs train ts st) = Inl e
      \<longrightarrow> run_episode_loop (Suc fuel) ops pol obs train period ts n st
            = Some (Inl e, snd (collect_step ops pol obs train ts st)))
   \<and> (call_reset ops st = (Inr ts0, st0)
        \<and> run_episode_loop fuel ops pol obs train period ts0 0 st0 = Some (Inl e, st1)
      \<longrightarrow> run_episode fuel ops pol obs train period st = Some (Inl e, st1))
   \<and> (real k < self_train_steps_per_iteration cfg
        \<and> run_episode fuel ops pol (train_metrics @ train_phase_metrics) True
              (self_update_period cfg) st = Some (Inl e, st1)
      \<longrightarrow> train_phase_loop (Suc fuel) cfg ops pol k st = Some (Inl e, st1))
   \<and> (real k < self_eval_steps_per_iteration cfg
        \<and> run_episode fuel ops pol eval_metrics False (self_update_period cfg) st
            = Some (Inl e, st1)
      \<longrightarrow> eval_phase_loop (Suc fuel) cfg ops pol k st = Some (Inl e, st1))
   \<and> (iteration_metric st < num_iterations cfg
        \<and> train_phase_loop fuel cfg ops pol 0 st = Some (Inl e, st1)
      \<longrightarrow> run_loop (Suc fuel) cfg ops pol st = Some (Inl e, st1))
   \<and> (iteration_metric st < num_iterations cfg \<and> do_eval cfg
        \<and> train_phase_loop fuel cfg ops pol 0 st = Some (Inr j, st1)
        \<and> eval_phase_loop fuel cfg ops pol 0 st1 = Some (Inl e, st3)
      \<longrightarrow> run_loop (Suc fuel) cfg ops pol st = Some (Inl e, st3))
   \<and> (initial_collect fuel cfg ops rp st = Some (Inl e, st1)
      \<longrightarrow> run fuel cfg ops rp pol st = Some (Inl e, st1))
   \<and> (initial_collect fuel cfg ops rp st = Some (Inr u, st1)
        \<and> run_loop fuel cfg ops pol st1 = Some (Inl e, st3)
      \<longrightarrow> run fuel cfg ops rp pol st = Some (Inl e, st3))
   \<and> (call_reset ops st = (Inr ts0, st0)
        \<and> initial_collect_loop fuel ops rp (self_initial_collect_steps cfg) ts0 st0
            = Some (Inl e, st1)
      \<longrightarrow> initial_collect fuel cfg ops rp st = Some (Inl e, st1))
   \<and> (real (rb_size (replay_buffer st)) < thr \<and> game_over ops st
        \<and> env_reset ops (env st) = Inl m
      \<longrightarrow> initial_collect_loop (Suc fuel) ops rp thr ts st
            = Some (Inl (EnvironmentError m), snd (call_reset ops st)))
   \<and> (real (rb_size (replay_buffer st)) < thr \<and> \<not> game_over ops st
        \<and> env_step ops (env st) (action (rp (policy_calls st) ts)) = Inl m
      \<longrightarrow> map_option fst (initial_collect_loop (Suc fuel) ops rp thr ts st)
            = Some (Inl (EnvironmentError m)))"
proof (intro conjI impI)
  assume "run_episode fuel ops pol obs train period st = Some (r, st')"
  then show "env_failures st' = env_failures st @ raised r st'"
    by (rule run_episode_failures)
next
  assume "run fuel2 cfg ops rp pol st = Some (r2, st2)"
  then show "env_failures st2 = env_failures st @ raised r2 st2"
    by (rule run_failures)
next
  assume a: "env_reset ops (env st) = Inl m"
  then show "fst (call_reset ops st) = Inl (EnvironmentError m)"
    by (simp add: call_reset_def)
  from a show "run_episode fuel ops pol obs train period st
                 = Some (Inl (EnvironmentError m), snd (call_reset ops st))"
    by (simp add: run_episode_def call_reset_def)
  from a show "initial_collect fuel cfg ops rp st
                 = Some (Inl (EnvironmentError m), snd (call_reset ops st))"
    by (simp add: initial_collect_def call_reset_def)
  from a show "run fuel cfg ops rp pol st
                 = Some (Inl (EnvironmentError m), snd (call_reset ops st))"
    by (simp add: run_def initial_collect_def call_reset_def)
next
  assume "env_step ops (env st) (action (pol (policy_calls st) ts)) = Inl m"
  then show "fst (collect_step ops pol obs train ts st) = Inl (EnvironmentError m)"
    by (simp add: collect_step_fails)
next
  assume "env_step ops (env st) (action (pol (policy_calls st) ts)) = Inr (nts, e1)
        \<and> is_last nts \<and> \<not> env_game_over ops e1 \<and> batched ts
        \<and> env_step ops e1 (action (pol (policy_calls st + 1) (restart (observation nts))))
            = Inl m"
  then show "fst (collect_step ops pol obs train ts st) = Inl (EnvironmentError m)"
    by (simp add: collect_step_life_loss_fails)
next
  assume "fst (collect_step ops pol obs train ts st) = Inl e"
  then show "run_episode_loop (Suc fuel) ops pol obs train period ts n st
            = Some (Inl e, snd (collect_step ops pol obs train ts st))"
    by (cases "collect_step ops pol obs train ts st") auto
next
  assume "call_reset ops st = (Inr ts0, st0)
        \<and> run_episode_loop fuel ops pol obs train period ts0 0 st0 = Some (Inl e, st1)"
  then show "run_episode fuel ops pol obs train period st = Some (Inl e, st1)"
    by (simp add: run_episode_def)
next
  assume "real k < self_train_steps_per_iteration cfg
        \<and> run_episode fuel ops pol (train_metrics @ train_phase_metrics) True
              (self_update_period cfg) st = Some (Inl e, st1)"
  then show "train_phase_loop (Suc fuel) cfg ops pol k st = Some (Inl e, st1)"
    by simp
next
  assume "real k < self_eval_steps_per_iteration cfg
        \<and> run_episode fuel ops pol eval_metrics False (self_update_period cfg) st
            = Some (Inl e, st1)"
  then show "eval_phase_loop (Suc fuel) cfg ops pol k st = Some (Inl e, st1)"
    by simp
next
  assume "iteration_metric st < num_iterations cfg
        \<and> train_phase_loop fuel cfg ops pol 0 st = Some (Inl e, st1)"
  then show "run_loop (Suc fuel) cfg ops pol st = Some (Inl e, st1)"
    by simp
next
  assume "iteration_metric st < num_iterations cfg \<and> do_eval cfg
        \<and> train_phase_loop fuel cfg ops pol 0 st = Some (Inr j, st1)
        \<and> eval_phase_loop fuel cfg ops pol 0 st1 = Some (Inl e, st3)"
  then show "run_loop (Suc fuel) cfg ops pol st = Some (Inl e, st3)"
    by simp
next
  assume "initial_collect fuel cfg ops rp st = Some (Inl e, st1)"
  then show "run fuel cfg ops rp pol st = Some (Inl e, st1)"
    by (simp add: run_def)
next
  assume "initial_collect fuel cfg ops rp st = Some (Inr u, st1)
        \<and> run_loop fuel cfg ops pol st1 = Some (Inl e, st3)"
  then show "run fuel cfg ops rp pol st = Some (Inl e, st3)"
    by (simp add: run_def)
next
  assume "call_reset ops st = (Inr ts0, st0)
        \<and> initial_collect_loop fuel ops rp (self_initial_collect_steps cfg) ts0 st0
            = Some (Inl e, st1)"
  then show "initial_collect fuel cfg ops rp st = Some (Inl e, st1)"
    by (simp add: initial_collect_def)
next
  assume "real (rb_size (replay_buffer st)) < thr \<and> game_over ops st
        \<and> env_reset ops (env st) = Inl m"
  then show "initial_collect_loop (Suc fuel) ops rp thr ts st
            = Some (Inl (EnvironmentError m), snd (call_reset ops st))"
    by (simp add: call_reset_def)
next
  assume "real (rb_size (replay_buffer st)) < thr \<and> \<not> game_over ops st
        \<and> env_step ops (env st) (action (rp (policy_calls st) ts)) = Inl m"
  then show "map_option fst (initial_collect_loop (Suc fuel) ops rp thr ts st)
            = Some (Inl (EnvironmentError m))"
    by (simp add: policy_action_def call_step_def)
qed

text \<open>
  A run whose environment fails inside the first train episode, at its fifth
  call: the initial collection and one collect step succeed, the next
  \<^verbatim>\<open>env.step\<close> raises, and \<^verbatim>\<open>run\<close> returns that error with no call made after
  it.
\<close>

theorem environment_failure_is_fatal_witness:
  "map_option fst
     (run 5 short_config stub noop_policy noop_policy (fresh 100 [mid 0, mid 0]))
     = Some (Inl (EnvironmentError ''script exhausted''))
   \<and> map_option (env_failures \<circ> snd)
       (run 5 short_config stub noop_policy noop_policy (fresh 100 [mid 0, mid 0]))
     = Some [(5, EnvironmentError ''script exhausted'')]
   \<and> map_option (env_reset_calls \<circ> snd)
       (run 5 short_config stub noop_policy noop_policy (fresh 100 [mid 0, mid 0])) = Some 2
   \<and> map_option (env_step_calls \<circ> snd)
       (run 5 short_config stub noop_policy noop_policy (fresh 100 [mid 0, mid 0])) = Some 3
   \<and> map_option (collect_step_calls \<circ> snd)
       (run 5 short_config stub noop_policy noop_policy (fresh 100 [mid 0, mid 0])) = Some 2"
proof -
  have ev: "map_option fst
     (run 5 short_config stub noop_policy noop_policy (fresh 100 [mid 0, mid 0]))
     = Some (Inl (EnvironmentError ''script exhausted''))"
    and calls: "map_option (env_reset_calls \<circ> snd)
       (run 5 short_config stub noop_policy noop_policy (fresh 100 [mid 0, mid 0])) = Some 2"
      "map_option (env_step_calls \<circ> snd)
       (run 5 short_config stub noop_policy noop_policy (fresh 100 [mid 0, mid 0])) = Some 3"
      "map_option (collect_step_calls \<circ> snd)
       (run 5 short_config stub noop_policy noop_policy (fresh 100 [mid 0, mid 0])) = Some 2"
    by (simp_all add: run_eval)
  then obtain st' where run:
    "run 5 short_config stub noop_policy noop_policy (fresh 100 [mid 0, mid 0])
       = Some (Inl (EnvironmentError ''script exhausted''), st')"
    by (cases "run 5 short_config stub noop_policy noop_policy (fresh 100 [mid 0, mid 0])") auto
  from environment_failure_is_fatal [THEN conjunct2, THEN conjunct1, rule_format, OF run]
  have "env_failures st' = [(env_reset_calls st' + env_step_calls st',
                             EnvironmentError ''script exhausted'')]"
    by (simp add: fresh_def initial_world_def)
  with ev calls run show ?thesis by simp
qed

section \<open>Clipped rewards in the store\<close>

lemma clip_bounds: "- 1 \<le> clip x (- 1) 1 \<and> clip x (- 1) 1 \<le> 1"
  by (simp add: clip_def)

lemma clip_idempotent: "clip (clip x (- 1) 1) (- 1) 1 = clip x (- 1) 1"
  by (simp add: clip_def)

text \<open>
  What \<^verbatim>\<open>_store_to_rb\<close> writes, the only write of the train and eval phases,
  has its reward in \<open>[-1, 1]\<close>, and clipping it again changes nothing. It writes
  batched transitions only, and raises on the others.
\<close>

lemma store_to_rb_reward_bounds:
  "(traj_batched traj \<longrightarrow>
      written (replay_buffer (snd (store_to_rb traj st)))
        = written (replay_buffer st) @ [clip_reward traj])
   \<and> (\<not> traj_batched traj \<longrightarrow> store_to_rb traj st = (Inl IndexError, st))
   \<and> - 1 \<le> traj_reward (clip_reward traj) \<and> traj_reward (clip_reward traj) \<le> 1
   \<and> clip_reward (clip_reward traj) = clip_reward traj"
  by (simp add: store_to_rb_def add_batch_def clip_reward_def clip_def)

section \<open>Initial collection\<close>

lemmas initial_collect_eval = initial_collect_def initial_collect_loop_numeral
  call_reset_def call_step_def policy_action_def game_over_def add_batch_def rb_size_def
  stub_defs fixed_length_env_def scenario_config_def self_initial_collect_steps_def
  ATARI_FRAME_SKIP_def from_transition_def restart_def batch_def

text \<open>
  Claim C5 says that every reward written to the store lies in \<open>[-1, 1]\<close>,
  initial collection included. \<^verbatim>\<open>_initial_collect\<close> does not go through
  \<^verbatim>\<open>_store_to_rb\<close>: it calls \<^verbatim>\<open>add_batch\<close> itself, with the transition as
  assembled. An environment step with reward 5 during initial collection leaves a
  stored reward of 5.
\<close>

theorem initial_collect_stores_unclipped_reward:
  "map_option (map traj_reward \<circ> written \<circ> replay_buffer \<circ> snd)
     (initial_collect 2 (scenario_config\<lparr>initial_collect_steps := 4\<rparr>) stub noop_policy
        (fresh 100 [mid 5])) = Some [5]"
  by (simp add: initial_collect_eval mid_def)

lemma initial_collect_loop_done:
  assumes "\<not> real (rb_size (replay_buffer st)) < thr"
    and "initial_collect_loop fuel ops rp thr ts st = Some (r, st')"
  shows "r = Inr () \<and> st' = st"
  using assms by (cases fuel) auto

lemma initial_collect_loop_result:
  "initial_collect_loop fuel ops rp thr ts st = Some (Inr u, st')
     \<Longrightarrow> thr \<le> real (rb_size (replay_buffer st'))
         \<and> global_step st' = global_step st
         \<and> observed st' = observed st
         \<and> env_steps_metric st' = env_steps_metric st
         \<and> (real (rb_size (replay_buffer st)) < thr
              \<longrightarrow> real (rb_size (replay_buffer st')) < thr + 1)"
proof (induction fuel arbitrary: ts st)
  case 0
  then show ?case by simp
next
  case (Suc fuel)
  show ?case
  proof (cases "real (rb_size (replay_buffer st)) < thr")
    case False
    with Suc.prems show ?thesis by auto
  next
    case True
    obtain x st1 where cr:
      "(if game_over ops st then call_reset ops st else (Inr ts, st)) = (x, st1)"
      by (cases "if game_over ops st then call_reset ops st else (Inr ts, st)")
    from Suc.prems True cr obtain ts1 where x: "x = Inr ts1"
      by (cases x) auto
    have f1: "global_step st1 = global_step st \<and> observed st1 = observed st
              \<and> env_steps_metric st1 = env_steps_metric st
              \<and> replay_buffer st1 = replay_buffer st"
      using cr call_reset_counts [of ops st x st1] by (auto split: if_splits)
    obtain y st3 where cs:
      "call_step ops (action (rp (policy_calls st1) ts1))
         (st1\<lparr>policy_calls := policy_calls st1 + 1\<rparr>) = (y, st3)"
      by (cases "call_step ops (action (rp (policy_calls st1) ts1))
         (st1\<lparr>policy_calls := policy_calls st1 + 1\<rparr>)")
    from Suc.prems True cr x cs obtain nts where y: "y = Inr nts"
      by (cases y) (auto simp: policy_action_def)
    have f3: "global_step st3 = global_step st1 \<and> observed st3 = observed st1
              \<and> env_steps_metric st3 = env_steps_metric st1
              \<and> replay_buffer st3 = replay_buffer st1"
      using cs by (auto simp: call_step_def split: sum.splits prod.splits)
    let ?traj = "from_transition ts1 (rp (policy_calls st1) ts1) nts"
    let ?st4 = "st3\<lparr>replay_buffer :=
                     (replay_buffer st3)\<lparr>written := written (replay_buffer st3) @ [?traj]\<rparr>\<rparr>"
    have rec: "initial_collect_loop fuel ops rp thr nts ?st4 = Some (Inr u, st')"
      using Suc.prems True cr x cs y
      by (simp add: policy_action_def add_batch_def split: if_splits)
    have grow: "rb_size (replay_buffer ?st4) \<le> rb_size (replay_buffer st) + 1"
      using f1 f3 by (simp add: rb_size_def)
    have same: "global_step ?st4 = global_step st \<and> observed ?st4 = observed st
                \<and> env_steps_metric ?st4 = env_steps_metric st"
      using f1 f3 by simp
    note ih = Suc.IH [OF rec]
    have bound: "real (rb_size (replay_buffer st')) < thr + 1"
    proof (cases "real (rb_size (replay_buffer ?st4)) < thr")
      case True
      with ih show ?thesis by simp
    next
      case False
      from initial_collect_loop_done [OF False rec] have "st' = ?st4" by simp
      with grow \<open>real (rb_size (replay_buffer st)) < thr\<close> show ?thesis
        by (simp del: of_nat_add)
    qed
    from ih same bound show ?thesis by simp
  qed
qed

lemma initial_collect_loop_returns:
  assumes reset_ok: "\<forall>s. \<exists>ts s'. env_reset ops s = Inr (ts, s')"
    and step_ok: "\<forall>s a. \<exists>ts s'. env_step ops s a = Inr (ts, s')"
  shows "thr \<le> real (capacity (replay_buffer st))
     \<Longrightarrow> nat \<lceil>thr\<rceil> - rb_size (replay_buffer st) < fuel
     \<Longrightarrow> batched ts
     \<Longrightarrow> \<exists>st'. initial_collect_loop fuel ops rp thr ts st = Some (Inr (), st')"
proof (induction fuel arbitrary: ts st)
  case 0
  then show ?case by simp
next
  case (Suc fuel)
  show ?case
  proof (cases "real (rb_size (replay_buffer st)) < thr")
    case False
    then show ?thesis by simp
  next
    case True
    obtain ts1 st1 where cr:
      "(if game_over ops st then call_reset ops st else (Inr ts, st)) = (Inr ts1, st1)"
      and f1: "replay_buffer st1 = replay_buffer st"
      and b1: "batched ts1"
    proof (cases "game_over ops st")
      case True
      from reset_ok obtain ts1 s' where "env_reset ops (env st) = Inr (ts1, s')" by blast
      with True that [of "batch ts1"] show ?thesis by (simp add: call_reset_def)
    next
      case False
      with that Suc.prems(3) show ?thesis by simp
    qed
    from step_ok obtain nts0 s' where
      "env_step ops (env st1) (action (rp (policy_calls st1) ts1)) = Inr (nts0, s')" by blast
    then obtain nts st3 where cs:
      "call_step ops (action (rp (policy_calls st1) ts1))
         (st1\<lparr>policy_calls := policy_calls st1 + 1\<rparr>) = (Inr nts, st3)"
      and f3: "replay_buffer st3 = replay_buffer st1"
      and b3: "batched nts"
      by (simp add: call_step_def)
    let ?traj = "from_transition ts1 (rp (policy_calls st1) ts1) nts"
    let ?st4 = "st3\<lparr>replay_buffer :=
                     (replay_buffer st3)\<lparr>written := written (replay_buffer st3) @ [?traj]\<rparr>\<rparr>"
    have unfold: "initial_collect_loop (Suc fuel) ops rp thr ts st
                    = initial_collect_loop fuel ops rp thr nts ?st4"
      using True cr cs b1 by (simp add: policy_action_def add_batch_def)
    have cap: "capacity (replay_buffer ?st4) = capacity (replay_buffer st)"
      using f1 f3 by simp
    from True Suc.prems(1) have "real (rb_size (replay_buffer st)) < real (capacity (replay_buffer st))"
      by linarith
    then have room: "length (written (replay_buffer st)) < capacity (replay_buffer st)"
      by (simp add: rb_size_def min_def split: if_splits)
    then have size4: "rb_size (replay_buffer ?st4) = rb_size (replay_buffer st) + 1"
      using f1 f3 by (simp add: rb_size_def)
    from True have "rb_size (replay_buffer st) < nat \<lceil>thr\<rceil>"
      by linarith
    with Suc.prems(2) size4 have fuel: "nat \<lceil>thr\<rceil> - rb_size (replay_buffer ?st4) < fuel"
      by linarith
    from Suc.prems(1) cap have "thr \<le> real (capacity (replay_buffer ?st4))"
      by simp
    from Suc.IH [OF this fuel b3] unfold show ?thesis by simp
  qed
qed


lemma initial_collect_result:
  assumes "initial_collect fuel cfg ops rp st = Some (Inr u, st')"
  shows "self_initial_collect_steps cfg \<le> real (rb_size (replay_buffer st'))
         \<and> global_step st' = global_step st
         \<and> observed st' = observed st
         \<and> env_steps_metric st' = env_steps_metric st
         \<and> (real (rb_size (replay_buffer st)) < self_initial_collect_steps cfg
              \<longrightarrow> real (rb_size (replay_buffer st')) < self_initial_collect_steps cfg + 1)"
proof -
  from assms obtain ts st1 where cr: "call_reset ops st = (Inr ts, st1)"
    and loop: "initial_collect_loop fuel ops rp (self_initial_collect_steps cfg) ts st1
                 = Some (Inr u, st')"
    by (auto simp: initial_collect_def split: sum.splits prod.splits)
  from initial_collect_loop_result [OF loop] call_reset_counts [OF cr]
  show ?thesis by simp
qed

lemma initial_collect_returns:
  assumes reset_ok: "\<forall>s. \<exists>ts s'. env_reset ops s = Inr (ts, s')"
    and step_ok: "\<forall>s a. \<exists>ts s'. env_step ops s a = Inr (ts, s')"
    and cap: "self_initial_collect_steps cfg \<le> real (capacity (replay_buffer st))"
  shows "\<exists>st'. initial_collect (Suc (nat \<lceil>self_initial_collect_steps cfg\<rceil>)) cfg ops rp st
                = Some (Inr (), st')"
proof -
  from reset_ok obtain ts0 s' where "env_reset ops (env st) = Inr (ts0, s')" by blast
  then obtain ts st1 where cr: "call_reset ops st = (Inr ts, st1)"
    and f1: "replay_buffer st1 = replay_buffer st"
    and b: "batched ts"
    by (simp add: call_reset_def)
  from cap f1 have cap1: "self_initial_collect_steps cfg \<le> real (capacity (replay_buffer st1))"
    by simp
  have "nat \<lceil>self_initial_collect_steps cfg\<rceil> - rb_size (replay_buffer st1)
          < Suc (nat \<lceil>self_initial_collect_steps cfg\<rceil>)"
    by simp
  from initial_collect_loop_returns [OF reset_ok step_ok cap1 this b, of rp] cr
  show ?thesis by (simp add: initial_collect_def)
qed

text \<open>
  Claim C7: the threshold of initial collection is the configured number of
  frames over the frame skip of 4, in true division: for every configuration
  \<open>self_initial_collect_steps cfg = initial_collect_steps cfg / 4\<close>, which is 50
  agent steps for 200 frames and one and a half for 6 frames. With capacity 100
  and the threshold of 50, initial collection against the environment of fixed
  episode length 10 returns after 5 resets with a store of size 50 and no learning
  update; with the threshold of one and a half it returns with a store of size 2.
  In general, when initial collection returns, the store has reached the
  threshold, by no more than the one write that reached it if it started below;
  no learning update was made and nothing was delivered to the metric observers.
  And it does return, within as many iterations as the threshold, whenever the
  environment never fails and the threshold does not exceed the capacity.
\<close>

theorem initial_collect_fills_to_threshold:
  "self_initial_collect_steps cfg = real (initial_collect_steps cfg) / 4
   \<and> self_initial_collect_steps scenario_config = 50
   \<and> self_initial_collect_steps (scenario_config\<lparr>initial_collect_steps := 6\<rparr>) = 3 / 2
   \<and> map_option (rb_size \<circ> replay_buffer \<circ> snd)
       (initial_collect 3 (scenario_config\<lparr>initial_collect_steps := 6\<rparr>) (fixed_length_env 10)
          noop_policy (initial_world 0 100))
     = Some 2
   \<and> map_option fst
       (initial_collect 51 scenario_config (fixed_length_env 10) noop_policy (initial_world 0 100))
     = Some (Inr ())
   \<and> map_option (rb_size \<circ> replay_buffer \<circ> snd)
       (initial_collect 51 scenario_config (fixed_length_env 10) noop_policy (initial_world 0 100))
     = Some 50
   \<and> map_option (env_reset_calls \<circ> snd)
       (initial_collect 51 scenario_config (fixed_length_env 10) noop_policy (initial_world 0 100))
     = Some 5
   \<and> map_option (global_step \<circ> snd)
       (initial_collect 51 scenario_config (fixed_length_env 10) noop_policy (initial_world 0 100))
     = Some 0
   \<and> (initial_collect fuel cfg ops rp st = Some (Inr u, st')
      \<longrightarrow> self_initial_collect_steps cfg \<le> real (rb_size (replay_buffer st'))
          \<and> global_step st' = global_step st
          \<and> observed st' = observed st
          \<and> (real (rb_size (replay_buffer st)) < self_initial_collect_steps cfg
               \<longrightarrow> real (rb_size (replay_buffer st')) < self_initial_collect_steps cfg + 1))
   \<and> ((\<forall>s. \<exists>ts s'. env_reset ops s = Inr (ts, s'))
        \<and> (\<forall>s a. \<exists>ts s'. env_step ops s a = Inr (ts, s'))
        \<and> self_initial_collect_steps cfg \<le> real (capacity (replay_buffer st))
      \<longrightarrow> (\<exists>st'. initial_collect (Suc (nat \<lceil>self_initial_collect_steps cfg\<rceil>)) cfg ops rp st
                   = Some (Inr (), st')))"
proof (intro conjI impI)
  show "self_initial_collect_steps cfg = real (initial_collect_steps cfg) / 4"
    by (simp add: self_initial_collect_steps_def ATARI_FRAME_SKIP_def)
  show "self_initial_collect_steps scenario_config = 50"
    by (simp add: self_initial_collect_steps_def scenario_config_def ATARI_FRAME_SKIP_def)
  show "self_initial_collect_steps (scenario_config\<lparr>initial_collect_steps := 6\<rparr>) = 3 / 2"
    by (simp add: self_initial_collect_steps_def scenario_config_def ATARI_FRAME_SKIP_def)
  show "map_option (rb_size \<circ> replay_buffer \<circ> snd)
       (initial_collect 3 (scenario_config\<lparr>initial_collect_steps := 6\<rparr>) (fixed_length_env 10)
          noop_policy (initial_world 0 100))
     = Some 2"
    by (simp add: initial_collect_eval)
  show "map_option fst
       (initial_collect 51 scenario_config (fixed_length_env 10) noop_policy (initial_world 0 100))
     = Some (Inr ())"
    by (simp add: initial_collect_eval)
  show "map_option (rb_size \<circ> replay_buffer \<circ> snd)
       (initial_collect 51 scenario_config (fixed_length_env 10) noop_policy (initial_world 0 100))
     = Some 50"
    by (simp add: initial_collect_eval)
  show "map_option (env_reset_calls \<circ> snd)
       (initial_collect 51 scenario_config (fixed_length_env 10) noop_policy (initial_world 0 100))
     = Some 5"
    by (simp add: initial_collect_eval)
  show "map_option (global_step \<circ> snd)
       (initial_collect 51 scenario_config (fixed_length_env 10) noop_policy (initial_world 0 100))
     = Some 0"
    by (simp add: initial_collect_eval)
next
  assume run: "initial_collect fuel cfg ops rp st = Some (Inr u, st')"
  from initial_collect_result [OF run]
  show "self_initial_collect_steps cfg \<le> real (rb_size (replay_buffer st'))"
    and "global_step st' = global_step st"
    and "observed st' = observed st"
    by simp_all
  assume "real (rb_size (replay_buffer st)) < self_initial_collect_steps cfg"
  with initial_collect_result [OF run]
  show "real (rb_size (replay_buffer st')) < self_initial_collect_steps cfg + 1"
    by simp
next
  assume "(\<forall>s. \<exists>ts s'. env_reset ops s = Inr (ts, s'))
        \<and> (\<forall>s a. \<exists>ts s'. env_step ops s a = Inr (ts, s'))
        \<and> self_initial_collect_steps cfg \<le> real (capacity (replay_buffer st))"
  then show "\<exists>st'. initial_collect (Suc (nat \<lceil>self_initial_collect_steps cfg\<rceil>)) cfg ops rp st
                   = Some (Inr (), st')"
    using initial_collect_returns by blast
qed

theorem initial_collect_fills_to_threshold_witness:
  "(\<forall>s. \<exists>ts s'. env_reset (fixed_length_env 10) s = Inr (ts, s'))
   \<and> (\<forall>s a. \<exists>ts s'. env_step (fixed_length_env 10) s a = Inr (ts, s'))
   \<and> self_initial_collect_steps scenario_config
        \<le> real (capacity (replay_buffer (initial_world (0::nat) 100)))
   \<and> (\<exists>st'. initial_collect 51 scenario_config (fixed_length_env 10) noop_policy
                 (initial_world 0 100) = Some (Inr (), st')
            \<and> real (rb_size (replay_buffer st')) = 50
            \<and> global_step st' = 0)"
proof -
  have reset_ok: "\<forall>s. \<exists>ts s'. env_reset (fixed_length_env 10) s = Inr (ts, s')"
    by (simp add: fixed_length_env_def)
  have step_ok: "\<forall>s a. \<exists>ts s'. env_step (fixed_length_env 10) s a = Inr (ts, s')"
    by (simp add: fixed_length_env_def)
  have thr: "self_initial_collect_steps scenario_config = 50"
    using initial_collect_fills_to_threshold [THEN conjunct1, of scenario_config]
    by (simp add: scenario_config_def)
  have cap: "self_initial_collect_steps scenario_config
               \<le> real (capacity (replay_buffer (initial_world (0::nat) 100)))"
    by (simp add: thr initial_world_def)
  from initial_collect_fills_to_threshold [THEN conjunct2, THEN conjunct2, THEN conjunct2,
      THEN conjunct2, THEN conjunct2, THEN conjunct2, THEN conjunct2, THEN conjunct2,
      THEN conjunct2, rule_format, OF conjI [OF reset_ok conjI [OF step_ok cap]],
      of noop_policy]
  obtain st' where run: "initial_collect 51 scenario_config (fixed_length_env 10) noop_policy
                 (initial_world 0 100) = Some (Inr (), st')"
    by (auto simp: thr)
  from initial_collect_fills_to_threshold [THEN conjunct2, THEN conjunct2, THEN conjunct2,
      THEN conjunct2, THEN conjunct2, THEN conjunct2, THEN conjunct2, THEN conjunct2,
      THEN conjunct1, rule_format, OF run]
  have "50 \<le> real (rb_size (replay_buffer st'))"
    and "global_step st' = 0"
    and "real (rb_size (replay_buffer st')) < 51"
    by (simp_all add: thr initial_world_def rb_size_def)
  then have "real (rb_size (replay_buffer st')) = 50 \<and> global_step st' = 0"
    by simp
  with run reset_ok step_ok cap show ?thesis by blast
qed

section \<open>When a learning update is triggered\<close>

lemma update_due_multiple:
  "update_due c period \<longleftrightarrow> period \<noteq> 0 \<and> (\<exists>k::int. real c = period * of_int k)"
proof
  assume "update_due c period"
  then have "period \<noteq> 0" and "real c = period * of_int \<lfloor>real c / period\<rfloor>"
    by (simp_all add: update_due_def py_mod_def)
  then show "period \<noteq> 0 \<and> (\<exists>k::int. real c = period * of_int k)"
    by blast
next
  assume "period \<noteq> 0 \<and> (\<exists>k::int. real c = period * of_int k)"
  then obtain k :: int where p: "period \<noteq> 0" and k: "real c = period * of_int k"
    by blast
  from p k have "real c / period = of_int k"
    by simp
  then have "\<lfloor>real c / period\<rfloor> = k"
    by simp
  with p k show "update_due c period"
    by (simp add: update_due_def py_mod_def)
qed

lemma updates_between_step:
  assumes "1 < n"
  shows "updates_between c n p =
           (if update_due (c + 1) p then 1 else 0) + updates_between (c + 1) (n - 1) p"
proof -
  from assms obtain m where n: "n = Suc (Suc m)"
    by (cases n) (auto simp: gr0_conv_Suc)
  have "[1..<n] = 1 # map Suc [1..<Suc m]"
    unfolding n by (simp add: map_Suc_upt upt_conv_Cons)
  then show ?thesis
    by (simp add: updates_between_def n filter_map o_def)
qed

lemma updates_between_one [simp]: "updates_between c (Suc 0) p = 0"
  by (simp add: updates_between_def)

lemma collect_step_plain_metric:
  "collect_step ops pol obs train ts st = (Inr ts', st1) \<Longrightarrow> life_losses st1 = life_losses st
     \<Longrightarrow> env_steps_metric st1 = env_steps_metric st + count_list obs EnvironmentSteps"
  by (auto simp: collect_step_defs split: sum.splits prod.splits if_splits)

lemma run_episode_loop_updates:
  assumes one: "count_list obs EnvironmentSteps = 1"
  shows "run_episode_loop fuel ops pol obs True period ts n st = Some (Inr k, st')
     \<Longrightarrow> life_losses st' = life_losses st
     \<Longrightarrow> n < k \<and> env_steps_metric st' = env_steps_metric st + (k - n)
         \<and> global_step st' = global_step st + updates_between (env_steps_metric st) (k - n) period"
proof (induction fuel arbitrary: ts n st)
  case 0
  then show ?case by simp
next
  case (Suc fuel)
  obtain x st1 where cs: "collect_step ops pol obs True ts st = (x, st1)"
    by (cases "collect_step ops pol obs True ts st")
  from Suc.prems(1) cs obtain ts' where x: "x = Inr ts'"
    by (cases x) auto
  have g1: "global_step st1 = global_step st"
    using collect_step_global_step [of ops pol obs True ts st] cs by simp
  have l1: "life_losses st \<le> life_losses st1"
    using collect_step_counts [of ops pol obs True ts st] cs by simp
  show ?case
  proof (cases "game_over ops st1")
    case True
    with Suc.prems cs x have k: "k = n + 1" and st': "st' = st1"
      by simp_all
    from collect_step_plain_metric [OF cs [unfolded x]] Suc.prems(2) st' one
    have "env_steps_metric st1 = env_steps_metric st + 1"
      by simp
    with k st' g1 show ?thesis by simp
  next
    case False
    let ?st2 = "if update_due (env_steps_metric st1) period then train_step_call st1 else st1"
    have rec: "run_episode_loop fuel ops pol obs True period ts' (n + 1) ?st2 = Some (Inr k, st')"
      using Suc.prems(1) cs x False by (auto split: if_splits)
    have l2: "life_losses ?st2 = life_losses st1"
      by simp
    from run_episode_loop_counts [OF rec] have "life_losses ?st2 \<le> life_losses st'"
      by blast
    with l1 l2 Suc.prems(2) have same1: "life_losses st1 = life_losses st"
      and same2: "life_losses st' = life_losses ?st2"
      by simp_all
    from collect_step_plain_metric [OF cs [unfolded x] same1] one
    have m1: "env_steps_metric st1 = env_steps_metric st + 1"
      by simp
    have m2: "env_steps_metric ?st2 = env_steps_metric st + 1"
      using m1 by simp
    have g2: "global_step ?st2 =
                global_step st + (if update_due (env_steps_metric st + 1) period then 1 else 0)"
      using g1 m1 by simp
    from Suc.IH [OF rec same2]
    have ih: "n + 1 < k" "env_steps_metric st' = env_steps_metric ?st2 + (k - (n + 1))"
      "global_step st' =
         global_step ?st2 + updates_between (env_steps_metric ?st2) (k - (n + 1)) period"
      by simp_all
    from ih(1) have "1 < k - n" by simp
    from updates_between_step [OF this, of "env_steps_metric st" period]
    have "updates_between (env_steps_metric st) (k - n) period =
            (if update_due (env_steps_metric st + 1) period then 1 else 0)
            + updates_between (env_steps_metric st + 1) (k - (n + 1)) period"
      by simp
    with ih m2 g2 show ?thesis
      by simp
  qed
qed

lemma run_episode_updates:
  assumes "run_episode fuel ops pol obs True period st = Some (Inr n, st')"
    and "life_losses st' = life_losses st"
    and "count_list obs EnvironmentSteps = 1"
  shows "0 < n \<and> env_steps_metric st' = env_steps_metric st + n
         \<and> global_step st' = global_step st + updates_between (env_steps_metric st) n period"
proof -
  from assms(1) obtain ts0 st1 where cr: "call_reset ops st = (Inr ts0, st1)"
    and loop: "run_episode_loop fuel ops pol obs True period ts0 0 st1 = Some (Inr n, st')"
    by (auto simp: run_episode_def split: sum.splits prod.splits)
  from call_reset_counts [OF cr] assms(2) have "life_losses st' = life_losses st1"
    by simp
  from run_episode_loop_updates [OF assms(3) loop this] call_reset_counts [OF cr]
  show ?thesis by simp
qed

lemmas train_phase_eval = train_phase_loop_numeral run_episode_loop_numeral run_episode_def
  call_reset_def collect_step_defs stub_defs fixed_length_env_def scenario_config_def
  self_train_steps_per_iteration_def self_update_period_def ATARI_FRAME_SKIP_def
  from_transition_def restart_def transition_def batch_def is_last_def clip_reward_def clip_def
  train_metrics_def train_phase_metrics_def update_due_def py_mod_def train_step_call_def

text \<open>
  Claim C4 says that a train phase with a budget of 20 agent steps and an update
  period of 5 agent steps triggers exactly 4 learning updates, an update being
  triggered in TRAIN mode exactly when the count of environment steps is a
  multiple of the update period. \<^verbatim>\<open>_run_episode\<close> tests \<^verbatim>\<open>self.game_over()\<close>
  first and breaks; the update is in the \<^verbatim>\<open>elif\<close>. A step that ends the game
  triggers no update, whatever the count. With one episode of 20 steps the phase
  takes its 20 steps, the count reaches 20, and 3 updates are made.
\<close>

theorem learning_updates_counterexample:
  "self_train_steps_per_iteration scenario_config = 20
   \<and> self_update_period scenario_config = 5
   \<and> map_option fst
       (train_phase_loop 21 scenario_config (fixed_length_env 20) noop_policy 0
          (initial_world 0 100)) = Some (Inr 20)
   \<and> map_option (env_steps_metric \<circ> snd)
       (train_phase_loop 21 scenario_config (fixed_length_env 20) noop_policy 0
          (initial_world 0 100)) = Some 20
   \<and> map_option (global_step \<circ> snd)
       (train_phase_loop 21 scenario_config (fixed_length_env 20) noop_policy 0
          (initial_world 0 100)) = Some 3"
  by (simp add: train_phase_eval)

lemma updates_between_scenario: "updates_between 0 20 5 = 3"
  by (simp add: updates_between_def update_due_def py_mod_def upt_rec)

text \<open>
  Claim C4, amended: after a collect step the loop of \<^verbatim>\<open>_run_episode\<close> returns if
  the game is over, and otherwise makes one learning update exactly when it runs
  in TRAIN mode and the count of the \<^verbatim>\<open>EnvironmentSteps\<close> metric is a multiple
  of the update period in agent steps (the period is not zero and the count is an
  integer times it). So an episode of \<open>n\<close> collect steps without life-loss
  boundaries, begun at count \<open>c\<close> with the metric among the observers once,
  advances the count by \<open>n\<close> and makes one update for each \<open>j\<close> with
  \<open>1 \<le> j < n\<close> and \<open>c + j\<close> a multiple of the period: never at its last step.
  A train phase with a budget of 20 agent steps and an update period of 5 agent
  steps, over one episode of 20 steps from count 0, takes 20 steps and makes
  exactly 3 updates.
\<close>

theorem learning_update_cadence:
  "(collect_step ops pol obs train ts st = (Inr ts', st1)
      \<longrightarrow> run_episode_loop (Suc fuel) ops pol obs train period ts m st =
            (if game_over ops st1 then Some (Inr (m + 1), st1)
             else run_episode_loop fuel ops pol obs train period ts' (m + 1)
                    (if train \<and> update_due (env_steps_metric st1) period
                     then train_step_call st1 else st1)))
   \<and> (update_due c period \<longleftrightarrow> period \<noteq> 0 \<and> (\<exists>k::int. real c = period * of_int k))
   \<and> (run_episode fuel ops pol obs True period st = Some (Inr n, st')
        \<and> life_losses st' = life_losses st \<and> count_list obs EnvironmentSteps = 1
      \<longrightarrow> 0 < n \<and> env_steps_metric st' = env_steps_metric st + n
          \<and> global_step st' = global_step st + updates_between (env_steps_metric st) n period)
   \<and> self_train_steps_per_iteration scenario_config = 20
   \<and> self_update_period scenario_config = 5
   \<and> updates_between 0 20 5 = 3
   \<and> map_option fst
       (train_phase_loop 21 scenario_config (fixed_length_env 20) noop_policy 0
          (initial_world 0 100)) = Some (Inr 20)
   \<and> map_option (global_step \<circ> snd)
       (train_phase_loop 21 scenario_config (fixed_length_env 20) noop_policy 0
          (initial_world 0 100)) = Some 3"
proof (intro conjI impI)
  assume "collect_step ops pol obs train ts st = (Inr ts', st1)"
  then show "run_episode_loop (Suc fuel) ops pol obs train period ts m st =
            (if game_over ops st1 then Some (Inr (m + 1), st1)
             else run_episode_loop fuel ops pol obs train period ts' (m + 1)
                    (if train \<and> update_due (env_steps_metric st1) period
                     then train_step_call st1 else st1))"
    by simp
next
  show "update_due c period \<longleftrightarrow> period \<noteq> 0 \<and> (\<exists>k::int. real c = period * of_int k)"
    by (rule update_due_multiple)
next
  assume a: "run_episode fuel ops pol obs True period st = Some (Inr n, st')
        \<and> life_losses st' = life_losses st \<and> count_list obs EnvironmentSteps = 1"
  then have "0 < n \<and> env_steps_metric st' = env_steps_metric st + n
          \<and> global_step st' = global_step st + updates_between (env_steps_metric st) n period"
    using run_episode_updates by blast
  then show "0 < n" and "env_steps_metric st' = env_steps_metric st + n"
    and "global_step st' = global_step st + updates_between (env_steps_metric st) n period"
    by simp_all
next
  show "self_train_steps_per_iteration scenario_config = 20"
    and "self_update_period scenario_config = 5"
    by (simp_all add: self_train_steps_per_iteration_def self_update_period_def
        scenario_config_def ATARI_FRAME_SKIP_def)
  show "updates_between 0 20 5 = 3"
    by (rule updates_between_scenario)
  show "map_option fst
       (train_phase_loop 21 scenario_config (fixed_length_env 20) noop_policy 0
          (initial_world 0 100)) = Some (Inr 20)"
    by (simp add: train_phase_eval)
  show "map_option (global_step \<circ> snd)
       (train_phase_loop 21 scenario_config (fixed_length_env 20) noop_policy 0
          (initial_world 0 100)) = Some 3"
    by (simp add: train_phase_eval)
qed

theorem learning_update_cadence_witness:
  "count_list (train_metrics @ train_phase_metrics) EnvironmentSteps = 1
   \<and> (\<exists>st'. run_episode 20 (fixed_length_env 20) noop_policy (train_metrics @ train_phase_metrics)
                 True 5 (initial_world 0 100) = Some (Inr 20, st')
            \<and> life_losses st' = life_losses (initial_world (0::nat) 100)
            \<and> env_steps_metric st' = 20
            \<and> global_step st' = 3)"
proof -
  have one: "count_list (train_metrics @ train_phase_metrics) EnvironmentSteps = 1"
    by (simp add: train_metrics_def train_phase_metrics_def)
  have ev: "map_option fst
      (run_episode 20 (fixed_length_env 20) noop_policy (train_metrics @ train_phase_metrics)
         True 5 (initial_world 0 100)) = Some (Inr 20)"
    and ll: "map_option (life_losses \<circ> snd)
      (run_episode 20 (fixed_length_env 20) noop_policy (train_metrics @ train_phase_metrics)
         True 5 (initial_world 0 100)) = Some 0"
    by (simp_all add: train_phase_eval)
  then obtain st' where run:
    "run_episode 20 (fixed_length_env 20) noop_policy (train_metrics @ train_phase_metrics)
       True 5 (initial_world 0 100) = Some (Inr 20, st')"
    by (cases "run_episode 20 (fixed_length_env 20) noop_policy
                 (train_metrics @ train_phase_metrics) True 5 (initial_world 0 100)") auto
  with ll have same: "life_losses st' = life_losses (initial_world (0::nat) 100)"
    by (simp add: initial_world_def)
  from learning_update_cadence [THEN conjunct2, THEN conjunct2, THEN conjunct1, rule_format,
      OF conjI [OF run conjI [OF same one]]]
    learning_update_cadence [THEN conjunct2, THEN conjunct2, THEN conjunct2, THEN conjunct2,
      THEN conjunct2, THEN conjunct1]
  have "env_steps_metric st' = 20" and "global_step st' = 3"
    by (simp_all add: initial_world_def)
  with one run same show ?thesis by blast
qed

section \<open>The exploration schedule\<close>

lemma epsilon_decay_steps_ratio:
  assumes "0 < update_period cfg"
  shows "epsilon_decay_steps cfg = real (epsilon_decay_period cfg) / real (update_period cfg)"
  using assms
  by (simp add: epsilon_decay_steps_def self_update_period_def ATARI_FRAME_SKIP_def)

text \<open>
  Claim C8: the exploration parameter, as a function of the schedule's step (the
  global step), is 1 at step 0, is the configured floor at every step at or
  beyond the decay steps, and never increases from one step to a later one; up to
  the decay steps it falls linearly. The decay steps are the configured period in
  agent steps divided by the update period in agent steps, that is the ratio of
  the two as configured in frames; when the update period is at least one agent
  step, a global step that has reached the decay period in agent steps has
  reached the decay steps as well. The configuration is taken with a positive
  decay period and update period, and a floor of at most 1.
\<close>

theorem epsilon_schedule:
  assumes "0 < epsilon_decay_period cfg" and "0 < update_period cfg"
    and "epsilon_greedy cfg \<le> 1"
  shows "epsilon cfg 0 = 1
         \<and> (epsilon_decay_steps cfg \<le> real step \<longrightarrow> epsilon cfg step = epsilon_greedy cfg)
         \<and> (step \<le> step' \<longrightarrow> epsilon cfg step' \<le> epsilon cfg step)
         \<and> (real step \<le> epsilon_decay_steps cfg
              \<longrightarrow> epsilon cfg step
                    = 1 - (1 - epsilon_greedy cfg) * (real step / epsilon_decay_steps cfg))
         \<and> epsilon_decay_steps cfg = real (epsilon_decay_period cfg) / real (update_period cfg)
         \<and> (ATARI_FRAME_SKIP \<le> update_period cfg
               \<and> real (epsilon_decay_period cfg) / real ATARI_FRAME_SKIP \<le> real step
              \<longrightarrow> epsilon cfg step = epsilon_greedy cfg)"
proof -
  let ?D = "epsilon_decay_steps cfg"
  let ?f = "epsilon_greedy cfg"
  have ratio: "?D = real (epsilon_decay_period cfg) / real (update_period cfg)"
    using assms(2) by (rule epsilon_decay_steps_ratio)
  with assms have pos: "0 < ?D"
    by simp
  have eps: "\<And>s. epsilon cfg s = (1 - ?f) * (1 - min (real s) ?D / ?D) + ?f"
    by (simp add: epsilon_def polynomial_decay_def)
  have start: "epsilon cfg 0 = 1"
    using pos by (simp add: eps)
  have floor: "epsilon cfg s = ?f" if "?D \<le> real s" for s
    using that pos by (simp add: eps min_def)
  have mono: "epsilon cfg step' \<le> epsilon cfg step" if "step \<le> step'"
  proof -
    from that have "min (real step) ?D \<le> min (real step') ?D"
      by (simp add: min_le_iff_disj)
    with pos have "min (real step) ?D / ?D \<le> min (real step') ?D / ?D"
      by (simp add: divide_right_mono)
    then have "1 - min (real step') ?D / ?D \<le> 1 - min (real step) ?D / ?D"
      by simp
    with assms(3) have "(1 - ?f) * (1 - min (real step') ?D / ?D)
                          \<le> (1 - ?f) * (1 - min (real step) ?D / ?D)"
      by (simp add: mult_left_mono)
    then show ?thesis by (simp add: eps)
  qed
  have linear: "epsilon cfg step = 1 - (1 - ?f) * (real step / ?D)" if "real step \<le> ?D"
    using that by (simp add: eps min_def algebra_simps)
  have agent: "epsilon cfg step = ?f"
    if "ATARI_FRAME_SKIP \<le> update_period cfg
          \<and> real (epsilon_decay_period cfg) / real ATARI_FRAME_SKIP \<le> real step"
  proof -
    from that have u: "4 \<le> real (update_period cfg)"
      and s: "real (epsilon_decay_period cfg) / 4 \<le> real step"
      by (simp_all add: ATARI_FRAME_SKIP_def)
    from u have "real (epsilon_decay_period cfg) / real (update_period cfg)
                   \<le> real (epsilon_decay_period cfg) / 4"
      by (intro divide_left_mono) simp_all
    from this s have "real (epsilon_decay_period cfg) / real (update_period cfg) \<le> real step"
      by (rule order_trans)
    then have "?D \<le> real step"
      by (simp only: ratio)
    then show ?thesis by (rule floor)
  qed
  from start floor mono linear ratio agent show ?thesis
    by blast
qed

theorem epsilon_schedule_witness:
  "0 < epsilon_decay_period scenario_config \<and> 0 < update_period scenario_config
   \<and> epsilon_greedy scenario_config \<le> 1
   \<and> epsilon_decay_steps scenario_config = 50000
   \<and> epsilon scenario_config 0 = 1
   \<and> epsilon scenario_config 25000 = 101 / 200
   \<and> epsilon scenario_config 50000 = 1 / 100
   \<and> epsilon scenario_config 60000 = 1 / 100"
proof -
  have h1: "0 < epsilon_decay_period scenario_config"
    and h2: "0 < update_period scenario_config"
    and h3: "epsilon_greedy scenario_config \<le> 1"
    by (simp_all add: scenario_config_def)
  note sched = epsilon_schedule [OF h1 h2 h3]
  have d: "epsilon_decay_steps scenario_config = 50000"
    using sched [of 0 0] by (simp add: scenario_config_def)
  have e0: "epsilon scenario_config 0 = 1"
    using sched [of 0 0] by simp
  have e1: "epsilon scenario_config 25000 = 101 / 200"
    using sched [of 25000 0] d by (simp add: scenario_config_def)
  have e2: "epsilon scenario_config 50000 = 1 / 100"
    using sched [of 50000 0] d by (simp add: scenario_config_def)
  have e3: "epsilon scenario_config 60000 = 1 / 100"
    using sched [of 60000 0] d by (simp add: scenario_config_def)
  show ?thesis
    by (intro conjI h1 h2 h3 d e0 e1 e2 e3)
qed

end
